theory Spec2Isabelle
  imports Complex_Main "HOL-Library.Word"
begin

section \<open>The transcription endpoint of \<^verbatim>\<open>apps/transcription/transcription.py\<close>\<close>

text \<open>
  The source is one Python function, \<^verbatim>\<open>transcribe_audio\<close>, that threads a request
  through the object store client, the local file system, the \<^verbatim>\<open>base64\<close> and
  \<^verbatim>\<open>cryptography\<close> packages and the Whisper model. The embedding passes an explicit
  \<open>world\<close>: the mutable state the function touches (environment, bucket, local files,
  standard output, the sequence of external calls issued) together with the outcome of
  every external collaborator (what each library call returns or raises). Every
  \<^verbatim>\<open>raise\<close> is a value \<open>Inl e\<close>; \<^verbatim>\<open>try/finally\<close> and \<^verbatim>\<open>try/except\<close> are combinators.
\<close>

subsection \<open>Data\<close>

type_synonym byte = "8 word"
type_synonym bytes = "byte list"

text \<open>A Python exception: its class name and \<^verbatim>\<open>str(e)\<close>.\<close>

datatype exn = Exn (exn_class: string) (exn_message: string)

text \<open>\<^verbatim>\<open>class TranscribeRequest(BaseModel)\<close>, lines 6-10.\<close>

record request =
  filename :: string
  language :: string
  decryption_key :: "string option"
  iv :: "string option"

text \<open>
  A segment of the model's output: a dictionary with the float entries \<^verbatim>\<open>start\<close> and
  \<^verbatim>\<open>end\<close>, the entry \<^verbatim>\<open>text\<close> and further model-provided entries, which the source only
  copies. Python floats are modelled as reals. For the one operation the source applies,
  \<open>x - 0.5\<close> followed by a clamp, binary64 arithmetic is exact for every \<open>x\<close> from 0.25 up
  to \<open>2^52\<close>, and below 0.25 the clamp takes over, so for timestamps the real result is
  the float result. (\<^verbatim>\<open>max(0, x)\<close> returns the integer 0 where it clamps; as a number it
  is the float 0.0.)
\<close>

record segment =
  seg_start :: real
  seg_end :: real
  seg_text :: string
  seg_other :: "(string \<times> string) list"

text \<open>The dictionary returned by \<^verbatim>\<open>model.transcribe\<close>.\<close>

record whisper_result =
  res_text :: string
  res_segments :: "segment list"
  res_language :: string

text \<open>The returned dictionary: keys in the order of the dictionary display.\<close>

datatype json_value = is_Str: Str string | Segments "segment list"

type_synonym response = "(string \<times> json_value) list"

text \<open>External calls, in the order they are issued.\<close>

datatype call =
    Boto3Client
  | TempfileCreate string
  | DownloadFile string string string
  | B64Decode string
  | AesGcmDecrypt bytes bytes bytes bytes
  | LoadModel string
  | Transcribe string "string option"
  | DeleteObject string string
  | Unlink string

record world =
  environ :: "string \<rightharpoonup> string"
  objects :: "string \<Rightarrow> string \<rightharpoonup> bytes"
  files :: "string \<rightharpoonup> bytes"
  stdout :: "string list"
  calls :: "call list"
  boto3_client_raises :: "exn option"
  tempfile_outcome :: "exn + string"
  download_raises :: "exn option"
  delete_raises :: "exn option"
  b64decode :: "string \<Rightarrow> exn + bytes"
  aes_gcm_decrypt :: "bytes \<Rightarrow> bytes \<Rightarrow> bytes \<Rightarrow> bytes \<Rightarrow> exn + bytes"
  load_model_raises :: "string \<Rightarrow> exn option"
  whisper_transcribe :: "string \<Rightarrow> bytes \<Rightarrow> string option \<Rightarrow> exn + whisper_result"
  format_exc :: "exn \<Rightarrow> string"
  str_lower :: "string \<Rightarrow> string"

subsection \<open>Control flow: sequencing and \<^verbatim>\<open>try/finally\<close>\<close>

type_synonym 'a action = "world \<Rightarrow> (exn + 'a) \<times> world"

definition ok :: "'a \<Rightarrow> 'a action" where
  "ok x w = (Inr x, w)"

definition seq :: "'a action \<Rightarrow> ('a \<Rightarrow> 'b action) \<Rightarrow> 'b action" where
  "seq m f w = (case m w of (Inl e, w') \<Rightarrow> (Inl e, w') | (Inr x, w') \<Rightarrow> f x w')"

text \<open>
  \<^verbatim>\<open>try: body finally: fin\<close>: \<open>fin\<close> runs whatever \<open>body\<close> did; an exception of \<open>fin\<close>
  replaces the outcome of \<open>body\<close>.
\<close>

definition try_finally :: "'a action \<Rightarrow> unit action \<Rightarrow> 'a action" where
  "try_finally body fin w =
     (case body w of (r, w') \<Rightarrow>
        (case fin w' of (Inl e, w'') \<Rightarrow> (Inl e, w'') | (Inr u, w'') \<Rightarrow> (r, w'')))"

definition record_call :: "call \<Rightarrow> unit action" where
  "record_call c w = (Inr (), w\<lparr>calls := calls w @ [c]\<rparr>)"

subsection \<open>The external collaborators\<close>

text \<open>\<^verbatim>\<open>os.environ[k]\<close> raises \<^verbatim>\<open>KeyError\<close> on a missing variable.\<close>

definition os_environ :: "string \<Rightarrow> string action" where
  "os_environ k w =
     (case environ w k of
        None \<Rightarrow> (Inl (Exn ''KeyError'' k), w)
      | Some v \<Rightarrow> (Inr v, w))"

text \<open>\<^verbatim>\<open>os.environ.get(k, default)\<close>.\<close>

definition os_environ_get :: "string \<Rightarrow> string \<Rightarrow> string action" where
  "os_environ_get k d w = (case environ w k of None \<Rightarrow> (Inr d, w) | Some v \<Rightarrow> (Inr v, w))"

text \<open>Lines 40-46: the three variables are read in argument order, then the client is built.\<close>

definition boto3_client :: "unit action" where
  "boto3_client =
     seq (os_environ ''CLOUDFLARE_ACCOUNT_ID'') (\<lambda>account_id.
     seq (os_environ ''R2_ACCESS_KEY_ID'') (\<lambda>access_key_id.
     seq (os_environ ''R2_SECRET_ACCESS_KEY'') (\<lambda>secret_access_key.
     seq (record_call Boto3Client) (\<lambda>u w.
       case boto3_client_raises w of Some e \<Rightarrow> (Inl e, w) | None \<Rightarrow> (Inr (), w)))))"

text \<open>
  Line 49, \<^verbatim>\<open>tempfile.NamedTemporaryFile(delete=False, suffix='.wav')\<close>: creates an empty
  file and yields its name; \<^verbatim>\<open>delete=False\<close>, so leaving the \<^verbatim>\<open>with\<close> block only closes it.
\<close>

definition NamedTemporaryFile :: "string action" where
  "NamedTemporaryFile w =
     (case tempfile_outcome w of
        Inl e \<Rightarrow> (Inl e, w)
      | Inr name \<Rightarrow>
          (Inr name, w\<lparr>files := (files w)(name \<mapsto> []), calls := calls w @ [TempfileCreate name]\<rparr>))"

text \<open>
  \<^verbatim>\<open>s3_client.download_file(bucket, key, path)\<close>: raises when the object does not exist or
  the transfer fails (the local file is then left as it was), else stores the object's
  bytes at \<open>path\<close>.
\<close>

definition download_file :: "string \<Rightarrow> string \<Rightarrow> string \<Rightarrow> unit action" where
  "download_file bucket key path w =
     (let w1 = w\<lparr>calls := calls w @ [DownloadFile bucket key path]\<rparr> in
      case objects w bucket key of
        None \<Rightarrow> (Inl (Exn ''ClientError'' ''Not Found''), w1)
      | Some data \<Rightarrow>
          (case download_raises w of
             Some e \<Rightarrow> (Inl e, w1)
           | None \<Rightarrow> (Inr (), w1\<lparr>files := (files w1)(path \<mapsto> data)\<rparr>)))"

text \<open>\<^verbatim>\<open>s3_client.delete_object(Bucket=bucket, Key=key)\<close>.\<close>

definition delete_object :: "string \<Rightarrow> string \<Rightarrow> unit action" where
  "delete_object bucket key w =
     (let w1 = w\<lparr>calls := calls w @ [DeleteObject bucket key]\<rparr> in
      case delete_raises w of
        Some e \<Rightarrow> (Inl e, w1)
      | None \<Rightarrow> (Inr (), w1\<lparr>objects := (objects w1)(bucket := (objects w1 bucket)(key := None))\<rparr>))"

text \<open>\<^verbatim>\<open>open(path, 'rb').read()\<close> and \<^verbatim>\<open>open(path, 'wb').write(data)\<close>.\<close>

definition read_file :: "string \<Rightarrow> bytes action" where
  "read_file path w =
     (case files w path of
        None \<Rightarrow> (Inl (Exn ''FileNotFoundError'' path), w)
      | Some data \<Rightarrow> (Inr data, w))"

definition write_file :: "string \<Rightarrow> bytes \<Rightarrow> unit action" where
  "write_file path data w = (Inr (), w\<lparr>files := (files w)(path \<mapsto> data)\<rparr>)"

text \<open>\<^verbatim>\<open>os.path.exists\<close> and \<^verbatim>\<open>os.unlink\<close> (POSIX: an open file can be unlinked).\<close>

definition os_path_exists :: "string \<Rightarrow> world \<Rightarrow> bool" where
  "os_path_exists path w = (files w path \<noteq> None)"

definition os_unlink :: "string \<Rightarrow> unit action" where
  "os_unlink path w =
     (case files w path of
        None \<Rightarrow> (Inl (Exn ''FileNotFoundError'' path), w)
      | Some data \<Rightarrow> (Inr (), w\<lparr>files := (files w)(path := None), calls := calls w @ [Unlink path]\<rparr>))"

text \<open>\<^verbatim>\<open>base64.b64decode(s)\<close>: the package's outcome on \<open>s\<close>.\<close>

definition base64_b64decode :: "string \<Rightarrow> bytes action" where
  "base64_b64decode s w = (b64decode w s, w\<lparr>calls := calls w @ [B64Decode s]\<rparr>)"

text \<open>
  Lines 79-85, \<^verbatim>\<open>Cipher(algorithms.AES(key), modes.GCM(iv, tag)).decryptor()\<close>, then
  \<^verbatim>\<open>update(ciphertext) + finalize()\<close>: the package's outcome, a plaintext or an exception
  (\<^verbatim>\<open>ValueError\<close> for a rejected key, nonce or tag length, \<^verbatim>\<open>InvalidTag\<close> from \<^verbatim>\<open>finalize\<close>).
\<close>

definition cipher_decrypt :: "bytes \<Rightarrow> bytes \<Rightarrow> bytes \<Rightarrow> bytes \<Rightarrow> bytes action" where
  "cipher_decrypt key_bytes iv_bytes tag ciphertext w =
     (aes_gcm_decrypt w key_bytes iv_bytes tag ciphertext,
      w\<lparr>calls := calls w @ [AesGcmDecrypt key_bytes iv_bytes tag ciphertext]\<rparr>)"

text \<open>\<^verbatim>\<open>whisper.load_model(name)\<close>; the loaded model is identified by its name.\<close>

definition whisper_load_model :: "string \<Rightarrow> string action" where
  "whisper_load_model name w =
     (let w1 = w\<lparr>calls := calls w @ [LoadModel name]\<rparr> in
      case load_model_raises w name of Some e \<Rightarrow> (Inl e, w1) | None \<Rightarrow> (Inr name, w1))"

text \<open>
  \<^verbatim>\<open>model.transcribe(path, language=lang)\<close>; \<open>None\<close> is the default of the keyword, under
  which the model detects the language.
\<close>

definition model_transcribe :: "string \<Rightarrow> string \<Rightarrow> string option \<Rightarrow> whisper_result action" where
  "model_transcribe model path lang w =
     (let w1 = w\<lparr>calls := calls w @ [Transcribe path lang]\<rparr> in
      case files w path of
        None \<Rightarrow> (Inl (Exn ''FileNotFoundError'' path), w1)
      | Some audio \<Rightarrow> (whisper_transcribe w model audio lang, w1))"

text \<open>\<^verbatim>\<open>print\<close>.\<close>

definition print :: "string \<Rightarrow> world \<Rightarrow> world" where
  "print s w = w\<lparr>stdout := stdout w @ [s]\<rparr>"

subsection \<open>Python built-ins the source uses\<close>

text \<open>
  \<^verbatim>\<open>str.lower\<close> is Unicode-aware (it lowers every cased character, not only A-Z, and a
  result can differ in length from its argument). It is a built-in and not code of the
  repository, so what it returns for a string is the world's \<open>str_lower\<close>, like the
  outcome of every other library call; a string is the sequence of its UTF-8 bytes.
\<close>

text \<open>Truth value of an \<^verbatim>\<open>str | None\<close>: \<^verbatim>\<open>None\<close> and the empty string are false.\<close>

fun truthy :: "string option \<Rightarrow> bool" where
  "truthy None = False"
| "truthy (Some s) = (s \<noteq> [])"

subsection \<open>\<^verbatim>\<open>transcribe_audio\<close>\<close>

text \<open>Lines 66-89, the body of \<^verbatim>\<open>if decryption_key and iv:\<close>.\<close>

definition decrypt_file :: "string \<Rightarrow> string \<Rightarrow> string \<Rightarrow> unit action" where
  "decrypt_file key_b64 iv_b64 temp_path =
     seq (read_file temp_path) (\<lambda>encrypted_data.
     seq (base64_b64decode key_b64) (\<lambda>key_bytes.
     seq (base64_b64decode iv_b64) (\<lambda>iv_bytes.
       let tag = drop (length encrypted_data - 16) encrypted_data;
           ciphertext = take (length encrypted_data - 16) encrypted_data
       in seq (cipher_decrypt key_bytes iv_bytes tag ciphertext) (\<lambda>decrypted_data.
          write_file temp_path decrypted_data))))"

text \<open>Line 61 with its body.\<close>

definition decrypt_if_provided :: "string option \<Rightarrow> string option \<Rightarrow> string \<Rightarrow> unit action" where
  "decrypt_if_provided key_opt iv_opt temp_path =
     (if truthy key_opt \<and> truthy iv_opt
      then decrypt_file (the key_opt) (the iv_opt) temp_path
      else ok ())"

text \<open>Lines 96-99.\<close>

definition transcribe_with_hint :: "string \<Rightarrow> string \<Rightarrow> string \<Rightarrow> whisper_result action" where
  "transcribe_with_hint model temp_path hint w =
     (if hint = ''auto''
      then model_transcribe model temp_path None w
      else model_transcribe model temp_path (Some (str_lower w hint)) w)"

text \<open>Lines 108-115.\<close>

definition SEGMENT_TIME_ADJUSTMENT_SEC :: real where
  "SEGMENT_TIME_ADJUSTMENT_SEC = 0.5"

definition adjust_segment :: "segment \<Rightarrow> segment" where
  "adjust_segment segment =
     segment\<lparr>seg_start := max 0 (seg_start segment - SEGMENT_TIME_ADJUSTMENT_SEC),
             seg_end := max SEGMENT_TIME_ADJUSTMENT_SEC (seg_end segment - SEGMENT_TIME_ADJUSTMENT_SEC)\<rparr>"

definition adjusted_segments :: "whisper_result \<Rightarrow> segment list" where
  "adjusted_segments result = map adjust_segment (res_segments result)"

text \<open>Lines 117-121.\<close>

definition transcript_response :: "whisper_result \<Rightarrow> response" where
  "transcript_response result =
     [(''text'', Str (res_text result)),
      (''segments'', Segments (adjusted_segments result)),
      (''language'', Str (res_language result))]"

text \<open>Lines 53-121, the body of the inner \<^verbatim>\<open>try\<close>.\<close>

definition process_file :: "request \<Rightarrow> string \<Rightarrow> response action" where
  "process_file request temp_path =
     seq (os_environ ''R2_BUCKET_NAME'') (\<lambda>bucket.
     seq (download_file bucket (filename request) temp_path) (\<lambda>u.
     seq (decrypt_if_provided (decryption_key request) (iv request) temp_path) (\<lambda>u.
     seq (os_environ_get ''WHISPER_MODEL'' ''base'') (\<lambda>model_name.
     seq (whisper_load_model model_name) (\<lambda>model.
     seq (transcribe_with_hint model temp_path (language request)) (\<lambda>result.
     seq (os_environ ''R2_BUCKET_NAME'') (\<lambda>bucket.
     seq (delete_object bucket (filename request)) (\<lambda>u.
     ok (transcript_response result)))))))))"

text \<open>Lines 123-126, the \<^verbatim>\<open>finally\<close> block.\<close>

definition cleanup :: "string \<Rightarrow> unit action" where
  "cleanup temp_path w = (if os_path_exists temp_path w then os_unlink temp_path w else (Inr (), w))"

text \<open>Lines 29-126, the body of the outer \<^verbatim>\<open>try\<close>.\<close>

definition validation_error :: response where
  "validation_error = [(''error'', Str ''Missing filename parameter'')]"

definition pipeline :: "request \<Rightarrow> response action" where
  "pipeline request =
     (if filename request = [] then ok validation_error
      else
        seq boto3_client (\<lambda>s3_client.
        seq NamedTemporaryFile (\<lambda>temp_path.
          try_finally (process_file request temp_path) (cleanup temp_path))))"

text \<open>Lines 128-140, the handler of \<^verbatim>\<open>except Exception as e\<close>.\<close>

definition generic_error :: response where
  "generic_error =
     [(''error'', Str ''An unexpected error occurred during transcription.''),
      (''text'', Str ''''),
      (''segments'', Segments []),
      (''language'', Str ''unknown'')]"

definition handle_exception :: "exn \<Rightarrow> world \<Rightarrow> response \<times> world" where
  "handle_exception e w =
     (generic_error,
      print (''Traceback: '' @ format_exc w e) (print (''Transcription error: '' @ exn_message e) w))"

definition transcribe_audio :: "request \<Rightarrow> world \<Rightarrow> response \<times> world" where
  "transcribe_audio request w =
     (case pipeline request w of
        (Inr response, w') \<Rightarrow> (response, w')
      | (Inl e, w') \<Rightarrow> handle_exception e w')"

subsection \<open>Vocabulary of the specification\<close>

text \<open>
  The two documented response shapes: a TranscriptResult \<open>{text, segments, language}\<close> and
  an ErrorResult \<open>{error, text: "", segments: [], language: "unknown"}\<close>.
\<close>

definition is_TranscriptResult :: "response \<Rightarrow> bool" where
  "is_TranscriptResult r \<longleftrightarrow>
     map fst r = [''text'', ''segments'', ''language''] \<and>
     map (is_Str \<circ> snd) r = [True, False, True]"

definition is_ErrorResult :: "response \<Rightarrow> bool" where
  "is_ErrorResult r \<longleftrightarrow>
     map fst r = [''error'', ''text'', ''segments'', ''language''] \<and>
     is_Str (snd (hd r)) \<and>
     map snd (tl r) = [Str [], Segments [], Str ''unknown'']"

text \<open>
  Standard Base64 with padding, as the client produces it for the key and the nonce (the
  source only decodes): three bytes become four characters of the alphabet.
\<close>

definition b64_alphabet :: string where
  "b64_alphabet = ''ABCDEFGHIJKLMNOPQRSTUVWXYZabcdefghijklmnopqrstuvwxyz0123456789+/''"

definition b64_char :: "nat \<Rightarrow> char" where
  "b64_char n = b64_alphabet ! (n mod 64)"

fun b64encode :: "bytes \<Rightarrow> string" where
  "b64encode [] = []"
| "b64encode [a] =
     (let x = unat a in
      [b64_char (x div 4), b64_char ((x mod 4) * 16), CHR ''='', CHR ''=''])"
| "b64encode [a, b] =
     (let x = unat a; y = unat b in
      [b64_char (x div 4), b64_char ((x mod 4) * 16 + y div 16),
       b64_char ((y mod 16) * 4), CHR ''=''])"
| "b64encode (a # b # c # rest) =
     (let x = unat a; y = unat b; z = unat c in
      [b64_char (x div 4), b64_char ((x mod 4) * 16 + y div 16),
       b64_char ((y mod 16) * 4 + z div 64), b64_char (z mod 64)] @ b64encode rest)"

text \<open>Flipping bit \<open>j\<close> of byte \<open>i\<close> of a buffer.\<close>

definition flip_bit_at :: "bytes \<Rightarrow> nat \<Rightarrow> nat \<Rightarrow> bytes" where
  "flip_bit_at buf i j = buf[i := xor (buf ! i) (push_bit j 1)]"

text \<open>
  Modelled from the spec: AES-GCM encryption, which the repository does not contain (the
  client encrypts; the source calls the decryptor of the \<^verbatim>\<open>cryptography\<close> package, the
  world's \<open>aes_gcm_decrypt\<close>). Section 4.2: "the wire format is ciphertext || tag where tag
  is the trailing 16 bytes"; section 8: decrypting what was encrypted under the same key
  and nonce "yields the original plaintext". So \<open>ciphertext\<close> and \<open>tag\<close> are the encryption
  of \<open>P\<close> under \<open>K\<close> and \<open>N\<close> when the tag has 16 bytes and the package's decryptor,
  given both, returns \<open>P\<close>.
\<close>

definition is_gcm_encryption ::
  "(bytes \<Rightarrow> bytes \<Rightarrow> bytes \<Rightarrow> bytes \<Rightarrow> exn + bytes) \<Rightarrow> bytes \<Rightarrow> bytes \<Rightarrow> bytes \<Rightarrow> bytes \<Rightarrow> bytes \<Rightarrow> bool" where
  "is_gcm_encryption dec K N P ciphertext tag \<longleftrightarrow>
     length tag = 16 \<and> dec K N tag ciphertext = Inr P"

text \<open>
  Modelled from the spec: what the AES-GCM decryptor of the \<^verbatim>\<open>cryptography\<close> package
  rejects. Section 4.2: it "fails with DecryptionError if authentication fails
  (tampered/wrong key) or lengths are invalid (key not 16/24/32 bytes, buffer shorter than
  16 bytes)"; section 8: "flipping any bit in the tag or ciphertext causes
  DecryptionError". For a decryptor \<open>dec\<close>, a key \<open>K\<close> and a nonce \<open>N\<close>: a key of another
  length is rejected; a tag shorter than 16 bytes is rejected; where one tag is accepted
  for a ciphertext, every other tag of that length is rejected; where a ciphertext is
  accepted, the same with one bit flipped is rejected. (In GCM the tag is a function of
  key, nonce and ciphertext, which gives the third; the fourth is the mode's integrity
  guarantee for the key at hand.)
\<close>

definition gcm_authenticates ::
  "(bytes \<Rightarrow> bytes \<Rightarrow> bytes \<Rightarrow> bytes \<Rightarrow> exn + bytes) \<Rightarrow> bytes \<Rightarrow> bytes \<Rightarrow> bool" where
  "gcm_authenticates dec K N \<longleftrightarrow>
     (length K \<notin> {16, 24, 32} \<longrightarrow> (\<forall>t c. isl (dec K N t c))) \<and>
     (\<forall>t c. length t < 16 \<longrightarrow> isl (dec K N t c)) \<and>
     (\<forall>t t' c. \<not> isl (dec K N t c) \<and> length t' = length t \<and> t' \<noteq> t \<longrightarrow> isl (dec K N t' c)) \<and>
     (\<forall>t c i j. \<not> isl (dec K N t c) \<and> i < length c \<and> j < 8 \<longrightarrow>
        isl (dec K N t (flip_bit_at c i j)))"

subsection \<open>A concrete world\<close>

text \<open>
  A stand-in decryptor that meets \<open>gcm_authenticates\<close>: the tag is a checksum of the
  ciphertext in sixteen bytes, the cipher a XOR with the first key byte.
\<close>

definition example_tag :: "bytes \<Rightarrow> bytes" where
  "example_tag c = fold xor c 0 # replicate 15 0"

definition example_decrypt :: "bytes \<Rightarrow> bytes \<Rightarrow> bytes \<Rightarrow> bytes \<Rightarrow> exn + bytes" where
  "example_decrypt k n t c =
     (if length k \<noteq> 16 \<and> length k \<noteq> 24 \<and> length k \<noteq> 32 then Inl (Exn ''ValueError'' ''Invalid key size'')
      else if t \<noteq> example_tag c then Inl (Exn ''InvalidTag'' [])
      else Inr (map (xor (hd k)) c))"

text \<open>
  The concrete world's stand-in for \<^verbatim>\<open>str.lower\<close>: what it does to a string of ASCII
  characters, the letters A-Z to a-z and every other character left alone. No theorem
  about the source depends on it; the runs of the concrete world use it.
\<close>

definition ascii_lower_char :: "char \<Rightarrow> char" where
  "ascii_lower_char c =
     (let n = (of_char c :: nat) in if 65 \<le> n \<and> n \<le> 90 then char_of (n + 32) else c)"

definition ascii_lower :: "string \<Rightarrow> string" where
  "ascii_lower s = map ascii_lower_char s"

definition example_key :: bytes where
  "example_key = [7, 7, 7, 7, 7, 7, 7, 7, 7, 7, 7, 7, 7, 7, 7, 7]"

definition example_nonce :: bytes where
  "example_nonce = [1, 2, 3, 4, 5, 6, 7, 8, 9, 10, 11, 12]"

definition example_b64decode :: "string \<Rightarrow> exn + bytes" where
  "example_b64decode s =
     (if s = [] then Inr []
      else if s = ''BwcHBwcHBwcHBwcHBwcHBw=='' then Inr example_key
      else if s = ''AQIDBAUGBwgJCgsM'' then Inr example_nonce
      else Inl (Exn ''binascii.Error'' ''Incorrect padding''))"

definition example_result :: "string option \<Rightarrow> whisper_result" where
  "example_result lang =
     \<lparr>res_text = ''hello world'',
      res_segments =
        [\<lparr>seg_start = 1.2, seg_end = 3.0, seg_text = ''hello'', seg_other = []\<rparr>,
         \<lparr>seg_start = 0.2, seg_end = 0.4, seg_text = ''world'', seg_other = []\<rparr>],
      res_language = (case lang of None \<Rightarrow> ''en'' | Some l \<Rightarrow> l)\<rparr>"

text \<open>The bucket holds \<^verbatim>\<open>a.wav\<close>, the stand-in encryption of the bytes 1, 2, 3 under \<open>example_key\<close>.\<close>

definition example_object :: bytes where
  "example_object = [6, 5, 4, 7, 0, 0, 0, 0, 0, 0, 0, 0, 0, 0, 0, 0, 0, 0, 0]"

definition example_world :: world where
  "example_world =
     \<lparr>environ =
        [''CLOUDFLARE_ACCOUNT_ID'' \<mapsto> ''account'', ''R2_ACCESS_KEY_ID'' \<mapsto> ''id'',
         ''R2_SECRET_ACCESS_KEY'' \<mapsto> ''secret'', ''R2_BUCKET_NAME'' \<mapsto> ''bucket''],
      objects = (\<lambda>bucket. if bucket = ''bucket'' then [''a.wav'' \<mapsto> example_object] else Map.empty),
      files = Map.empty,
      stdout = [],
      calls = [],
      boto3_client_raises = None,
      tempfile_outcome = Inr ''/tmp/tmpab12.wav'',
      download_raises = None,
      delete_raises = None,
      b64decode = example_b64decode,
      aes_gcm_decrypt = example_decrypt,
      load_model_raises = (\<lambda>name. None),
      whisper_transcribe = (\<lambda>model audio lang. Inr (example_result lang)),
      format_exc = (\<lambda>e. ''Traceback (most recent call last): '' @ exn_class e),
      str_lower = ascii_lower\<rparr>"

definition example_request :: request where
  "example_request =
     \<lparr>filename = ''a.wav'', language = ''EN'', decryption_key = None, iv = None\<rparr>"

text \<open>The same request with the Base64 text of \<open>example_key\<close> and \<open>example_nonce\<close>.\<close>

definition encrypted_request :: request where
  "encrypted_request =
     example_request\<lparr>decryption_key := Some ''BwcHBwcHBwcHBwcHBwcHBw=='',
                      iv := Some ''AQIDBAUGBwgJCgsM''\<rparr>"

text \<open>The concrete world with other bytes stored under \<^verbatim>\<open>a.wav\<close>.\<close>

definition world_with_object :: "bytes \<Rightarrow> world" where
  "world_with_object data = example_world\<lparr>objects := (\<lambda>bucket. [''a.wav'' \<mapsto> data])\<rparr>"

subsection \<open>Predicates on runs\<close>

text \<open>
  \<open>evolves Q w w'\<close>: the world \<open>w'\<close> differs from \<open>w\<close> at most in the bucket, the local files
  and the call sequence, which has grown by calls that satisfy \<open>Q\<close>. An action \<open>emits Q\<close>
  when every run of it evolves the world so.
\<close>

definition evolves :: "(call \<Rightarrow> bool) \<Rightarrow> world \<Rightarrow> world \<Rightarrow> bool" where
  "evolves Q w w' \<longleftrightarrow>
     (\<exists>os fs tr. w' = w\<lparr>objects := os, files := fs, calls := calls w @ tr\<rparr> \<and> list_all Q tr)"

definition emits :: "(call \<Rightarrow> bool) \<Rightarrow> 'a action \<Rightarrow> bool" where
  "emits Q m \<longleftrightarrow> (\<forall>w. evolves Q w (snd (m w)))"


text \<open>
  The body of the inner \<^verbatim>\<open>try\<close> in two phases, for the proofs: lines 53-99, up to the
  model's result, and lines 101-121, from the deletion of the object to the response.
  \<open>hint_arg\<close> is the \<^verbatim>\<open>language\<close> argument that lines 96-99 pass to the model.
\<close>

definition inference :: "request \<Rightarrow> string \<Rightarrow> whisper_result action" where
  "inference request temp_path =
     seq (os_environ ''R2_BUCKET_NAME'') (\<lambda>bucket.
     seq (download_file bucket (filename request) temp_path) (\<lambda>u.
     seq (decrypt_if_provided (decryption_key request) (iv request) temp_path) (\<lambda>u.
     seq (os_environ_get ''WHISPER_MODEL'' ''base'') (\<lambda>model_name.
     seq (whisper_load_model model_name) (\<lambda>model.
     transcribe_with_hint model temp_path (language request))))))"

definition finish :: "request \<Rightarrow> whisper_result \<Rightarrow> response action" where
  "finish request result =
     seq (os_environ ''R2_BUCKET_NAME'') (\<lambda>bucket.
     seq (delete_object bucket (filename request)) (\<lambda>u.
     ok (transcript_response result)))"

definition hint_arg :: "world \<Rightarrow> request \<Rightarrow> string option" where
  "hint_arg w req =
     (if language req = ''auto'' then None else Some (str_lower w (language req)))"

section \<open>Properties\<close>

subsection \<open>What a run may change\<close>

lemma evolvesI:
  "w' = w\<lparr>objects := os, files := fs, calls := calls w @ tr\<rparr> \<Longrightarrow> list_all Q tr \<Longrightarrow> evolves Q w w'"
  unfolding evolves_def by blast

lemma evolves_refl: "evolves Q w w"
  by (rule evolvesI [where os="objects w" and fs="files w" and tr="[]"]) simp_all

lemma evolves_trans: "evolves Q w w1 \<Longrightarrow> evolves Q w1 w2 \<Longrightarrow> evolves Q w w2"
proof -
  assume "evolves Q w w1" and "evolves Q w1 w2"
  then obtain os fs tr os' fs' tr' where
    w1: "w1 = w\<lparr>objects := os, files := fs, calls := calls w @ tr\<rparr>" and tr: "list_all Q tr" and
    w2: "w2 = w1\<lparr>objects := os', files := fs', calls := calls w1 @ tr'\<rparr>" and tr': "list_all Q tr'"
    unfolding evolves_def by blast
  show ?thesis
    by (rule evolvesI [where os=os' and fs=fs' and tr="tr @ tr'"]) (simp_all add: w1 w2 tr tr')
qed

lemma evolves_calls: "Q c \<Longrightarrow> evolves Q w (w\<lparr>calls := calls w @ [c]\<rparr>)"
  by (rule evolvesI [where os="objects w" and fs="files w" and tr="[c]"]) simp_all

lemma evolves_files: "evolves Q w (w\<lparr>files := fs\<rparr>)"
  by (rule evolvesI [where os="objects w" and fs=fs and tr="[]"]) simp_all

lemma evolves_objects: "evolves Q w (w\<lparr>objects := os\<rparr>)"
  by (rule evolvesI [where os=os and fs="files w" and tr="[]"]) simp_all

lemma evolves_files_calls: "Q c \<Longrightarrow> evolves Q w (w\<lparr>files := fs, calls := calls w @ [c]\<rparr>)"
  by (rule evolvesI [where os="objects w" and fs=fs and tr="[c]"]) simp_all

lemma evolves_calls_files: "Q c \<Longrightarrow> evolves Q w (w\<lparr>calls := calls w @ [c], files := fs\<rparr>)"
  by (rule evolvesI [where os="objects w" and fs=fs and tr="[c]"]) simp_all

lemma evolves_objects_calls: "Q c \<Longrightarrow> evolves Q w (w\<lparr>objects := os, calls := calls w @ [c]\<rparr>)"
  by (rule evolvesI [where os=os and fs="files w" and tr="[c]"]) simp_all

lemma evolves_calls_objects: "Q c \<Longrightarrow> evolves Q w (w\<lparr>calls := calls w @ [c], objects := os\<rparr>)"
  by (rule evolvesI [where os=os and fs="files w" and tr="[c]"]) simp_all

lemmas evolves_simps = evolves_refl evolves_calls evolves_files evolves_objects
  evolves_files_calls evolves_calls_files evolves_objects_calls evolves_calls_objects

lemma evolves_mono: "evolves Q w w' \<Longrightarrow> (\<And>c. Q c \<Longrightarrow> Q' c) \<Longrightarrow> evolves Q' w w'"
  unfolding evolves_def list_all_iff by blast

lemma emitsI: "(\<And>w. evolves Q w (snd (m w))) \<Longrightarrow> emits Q m"
  by (simp add: emits_def)

lemma emitsD: "emits Q m \<Longrightarrow> m w = (r, w') \<Longrightarrow> evolves Q w w'"
  by (auto simp: emits_def dest: spec [of _ w])

lemma emits_ok: "emits Q (ok x)"
  by (simp add: emits_def ok_def evolves_refl)

lemma emits_seq:
  assumes m: "emits Q m" and f: "\<And>x. emits Q (f x)"
  shows "emits Q (seq m f)"
proof (rule emitsI)
  fix w
  obtain r w1 where mw: "m w = (r, w1)" by (cases "m w")
  have e1: "evolves Q w w1" using m mw by (rule emitsD)
  show "evolves Q w (snd (seq m f w))"
  proof (cases r)
    case (Inl e)
    then show ?thesis using e1 mw by (simp add: seq_def)
  next
    case (Inr x)
    obtain r2 w2 where fw: "f x w1 = (r2, w2)" by (cases "f x w1")
    have "evolves Q w1 w2" using f fw by (rule emitsD)
    with e1 have "evolves Q w w2" by (rule evolves_trans)
    then show ?thesis using Inr mw fw by (simp add: seq_def)
  qed
qed

lemma emits_try_finally:
  assumes b: "emits Q body" and f: "emits Q fin"
  shows "emits Q (try_finally body fin)"
proof (rule emitsI)
  fix w
  obtain r w1 where bw: "body w = (r, w1)" by (cases "body w")
  obtain r2 w2 where fw: "fin w1 = (r2, w2)" by (cases "fin w1")
  have "evolves Q w w1" using b bw by (rule emitsD)
  moreover have "evolves Q w1 w2" using f fw by (rule emitsD)
  ultimately have "evolves Q w w2" by (rule evolves_trans)
  then show "evolves Q w (snd (try_finally body fin w))"
    using bw fw by (cases r2) (simp_all add: try_finally_def)
qed

lemma emits_os_environ: "emits Q (os_environ k)"
  by (rule emitsI) (simp add: os_environ_def evolves_refl split: option.split)

lemma emits_os_environ_get: "emits Q (os_environ_get k d)"
  by (rule emitsI) (simp add: os_environ_get_def evolves_refl split: option.split)

lemma emits_record_call: "Q c \<Longrightarrow> emits Q (record_call c)"
  by (rule emitsI) (simp add: record_call_def evolves_calls)

lemma emits_boto3_client: "Q Boto3Client \<Longrightarrow> emits Q boto3_client"
  unfolding boto3_client_def
  by (intro emits_seq emits_os_environ emits_record_call, assumption)
     (rule emitsI, simp add: evolves_refl split: option.split)

lemma emits_NamedTemporaryFile: "(\<And>name. Q (TempfileCreate name)) \<Longrightarrow> emits Q NamedTemporaryFile"
  by (rule emitsI)
     (simp add: NamedTemporaryFile_def evolves_simps split: sum.split)

lemma emits_download_file: "Q (DownloadFile b k p) \<Longrightarrow> emits Q (download_file b k p)"
  by (rule emitsI)
     (simp add: download_file_def Let_def evolves_simps split: option.split)

lemma emits_delete_object: "Q (DeleteObject b k) \<Longrightarrow> emits Q (delete_object b k)"
  by (rule emitsI)
     (simp add: delete_object_def Let_def evolves_simps split: option.split)

lemma emits_read_file: "emits Q (read_file p)"
  by (rule emitsI) (simp add: read_file_def evolves_refl split: option.split)

lemma emits_write_file: "emits Q (write_file p d)"
  by (rule emitsI) (simp add: write_file_def evolves_files)

lemma emits_os_unlink: "Q (Unlink p) \<Longrightarrow> emits Q (os_unlink p)"
  by (rule emitsI)
     (simp add: os_unlink_def evolves_simps split: option.split)

lemma emits_base64_b64decode: "Q (B64Decode s) \<Longrightarrow> emits Q (base64_b64decode s)"
  by (rule emitsI) (simp add: base64_b64decode_def evolves_calls)

lemma emits_cipher_decrypt: "Q (AesGcmDecrypt k n t c) \<Longrightarrow> emits Q (cipher_decrypt k n t c)"
  by (rule emitsI) (simp add: cipher_decrypt_def evolves_calls)

lemma emits_whisper_load_model: "Q (LoadModel n) \<Longrightarrow> emits Q (whisper_load_model n)"
  by (rule emitsI) (simp add: whisper_load_model_def Let_def evolves_calls split: option.split)

lemma emits_model_transcribe: "Q (Transcribe p l) \<Longrightarrow> emits Q (model_transcribe m p l)"
  by (rule emitsI) (simp add: model_transcribe_def Let_def evolves_calls split: option.split)

lemma emits_decrypt_file:
  "(\<And>s. Q (B64Decode s)) \<Longrightarrow> (\<And>k n t c. Q (AesGcmDecrypt k n t c)) \<Longrightarrow> emits Q (decrypt_file ks ns p)"
  unfolding decrypt_file_def Let_def
  by (intro emits_seq emits_read_file emits_base64_b64decode emits_cipher_decrypt emits_write_file)

lemma emits_decrypt_if_provided:
  "(\<And>s. Q (B64Decode s)) \<Longrightarrow> (\<And>k n t c. Q (AesGcmDecrypt k n t c)) \<Longrightarrow> emits Q (decrypt_if_provided ko no p)"
  unfolding decrypt_if_provided_def
  by (simp add: emits_decrypt_file emits_ok)

lemma emits_transcribe_with_hint:
  "(\<And>l. Q (Transcribe p l)) \<Longrightarrow> emits Q (transcribe_with_hint m p hint)"
  by (rule emitsI)
     (simp add: transcribe_with_hint_def model_transcribe_def Let_def evolves_calls
        split: option.split)

lemma emits_cleanup: "Q (Unlink p) \<Longrightarrow> emits Q (cleanup p)"
  using emits_os_unlink [of Q p]
  by (auto simp add: emits_def cleanup_def evolves_refl)

lemma emits_process_file:
  assumes "\<And>b. Q (DownloadFile b (filename req) p)" "\<And>s. Q (B64Decode s)"
    "\<And>k n t c. Q (AesGcmDecrypt k n t c)" "\<And>n. Q (LoadModel n)"
    "\<And>l. Q (Transcribe p l)"
    "\<And>b. Q (DeleteObject b (filename req))"
  shows "emits Q (process_file req p)"
  unfolding process_file_def
  by (intro emits_seq emits_os_environ emits_os_environ_get emits_download_file
        emits_decrypt_if_provided emits_whisper_load_model emits_transcribe_with_hint
        emits_delete_object emits_ok assms)

lemma emits_pipeline:
  assumes "Q Boto3Client" "\<And>p. Q (TempfileCreate p)"
    "\<And>b p. Q (DownloadFile b (filename req) p)" "\<And>s. Q (B64Decode s)"
    "\<And>k n t c. Q (AesGcmDecrypt k n t c)" "\<And>n. Q (LoadModel n)"
    "\<And>p l. Q (Transcribe p l)"
    "\<And>b. Q (DeleteObject b (filename req))" "\<And>p. Q (Unlink p)"
  shows "emits Q (pipeline req)"
  unfolding pipeline_def
  by (auto intro!: emits_seq emits_ok emits_boto3_client emits_NamedTemporaryFile
        emits_try_finally emits_process_file emits_cleanup assms)

lemma emits_calls:
  "emits Q m \<Longrightarrow> calls w = [] \<Longrightarrow> c \<in> set (calls (snd (m w))) \<Longrightarrow> Q c"
  by (auto simp add: emits_def evolves_def list_all_iff dest!: spec [of _ w])

lemma emits_frame:
  "emits Q m \<Longrightarrow> m w = (r, w') \<Longrightarrow>
     environ w' = environ w \<and> stdout w' = stdout w \<and> format_exc w' = format_exc w \<and>
     whisper_transcribe w' = whisper_transcribe w \<and> delete_raises w' = delete_raises w"
  by (auto simp add: evolves_def dest!: emitsD)

lemma emits_any_pipeline: "emits (\<lambda>c. True) (pipeline req)"
  by (rule emits_pipeline) simp_all

lemma snd_transcribe_audio:
  "calls (snd (transcribe_audio req w)) = calls (snd (pipeline req w))"
  "files (snd (transcribe_audio req w)) = files (snd (pipeline req w))"
  "objects (snd (transcribe_audio req w)) = objects (snd (pipeline req w))"
  by (simp_all add: transcribe_audio_def handle_exception_def print_def split: prod.split sum.split)

subsection \<open>The phases of a run\<close>

lemma seq_assoc: "seq (seq m f) g = seq m (\<lambda>x. seq (f x) g)"
  by (rule ext) (simp add: seq_def split: prod.split sum.split)

lemma process_file_phases: "process_file req p = seq (inference req p) (finish req)"
  by (simp add: process_file_def inference_def finish_def [abs_def] seq_assoc)

lemma evolves_callsD: "evolves Q w w' \<Longrightarrow> \<exists>tr. calls w' = calls w @ tr \<and> list_all Q tr"
  by (auto simp add: evolves_def)

lemma evolves_frame:
  "evolves Q w w' \<Longrightarrow>
     environ w' = environ w \<and> stdout w' = stdout w \<and> format_exc w' = format_exc w \<and>
     whisper_transcribe w' = whisper_transcribe w \<and> delete_raises w' = delete_raises w \<and>
     tempfile_outcome w' = tempfile_outcome w \<and> download_raises w' = download_raises w \<and>
     b64decode w' = b64decode w \<and> aes_gcm_decrypt w' = aes_gcm_decrypt w \<and>
     load_model_raises w' = load_model_raises w \<and>
     boto3_client_raises w' = boto3_client_raises w \<and> str_lower w' = str_lower w"
  by (auto simp add: evolves_def)

lemma hint_arg_frame: "evolves Q w w' \<Longrightarrow> hint_arg w' req = hint_arg w req"
  by (simp add: hint_arg_def evolves_frame)

lemma hint_arg_update [simp]:
  "hint_arg (w\<lparr>files := fs, calls := cs\<rparr>) req = hint_arg w req"
  by (simp add: hint_arg_def)

lemma emits_inference:
  assumes "\<And>b. Q (DownloadFile b (filename req) p)" "\<And>s. Q (B64Decode s)"
    "\<And>k n t c. Q (AesGcmDecrypt k n t c)" "\<And>n. Q (LoadModel n)"
    "\<And>l. Q (Transcribe p l)"
  shows "emits Q (inference req p)"
  unfolding inference_def
  by (intro emits_seq emits_os_environ emits_os_environ_get emits_download_file
        emits_decrypt_if_provided emits_whisper_load_model emits_transcribe_with_hint assms)

lemma seq_Inr:
  "seq m f w = (Inr y, w') \<Longrightarrow> \<exists>x w1. m w = (Inr x, w1) \<and> f x w1 = (Inr y, w')"
  by (auto simp add: seq_def split: prod.splits sum.splits)

lemma transcribe_with_hint_result:
  "transcribe_with_hint model p hint w = (Inr result, w') \<Longrightarrow>
     \<exists>audio. files w p = Some audio \<and>
       whisper_transcribe w model audio
         (if hint = ''auto'' then None else Some (str_lower w hint)) = Inr result"
  by (auto simp add: transcribe_with_hint_def model_transcribe_def Let_def split: if_splits option.splits)

lemma inference_result:
  assumes "inference req p w = (Inr result, w')"
  shows "\<exists>model audio. whisper_transcribe w model audio (hint_arg w req) = Inr result"
proof -
  let ?Q = "\<lambda>c::call. True"
  from assms obtain bucket w1 where 1: "os_environ ''R2_BUCKET_NAME'' w = (Inr bucket, w1)"
    and r1: "seq (download_file bucket (filename req) p) (\<lambda>u.
     seq (decrypt_if_provided (decryption_key req) (iv req) p) (\<lambda>u.
     seq (os_environ_get ''WHISPER_MODEL'' ''base'') (\<lambda>model_name.
     seq (whisper_load_model model_name) (\<lambda>model.
     transcribe_with_hint model p (language req))))) w1 = (Inr result, w')"
    unfolding inference_def by (blast dest: seq_Inr)
  from r1 obtain u2 w2 where 2: "download_file bucket (filename req) p w1 = (Inr u2, w2)"
    and r2: "seq (decrypt_if_provided (decryption_key req) (iv req) p) (\<lambda>u.
     seq (os_environ_get ''WHISPER_MODEL'' ''base'') (\<lambda>model_name.
     seq (whisper_load_model model_name) (\<lambda>model.
     transcribe_with_hint model p (language req)))) w2 = (Inr result, w')"
    by (blast dest: seq_Inr)
  from r2 obtain u3 w3 where 3: "decrypt_if_provided (decryption_key req) (iv req) p w2 = (Inr u3, w3)"
    and r3: "seq (os_environ_get ''WHISPER_MODEL'' ''base'') (\<lambda>model_name.
     seq (whisper_load_model model_name) (\<lambda>model.
     transcribe_with_hint model p (language req))) w3 = (Inr result, w')"
    by (blast dest: seq_Inr)
  from r3 obtain name w4 where 4: "os_environ_get ''WHISPER_MODEL'' ''base'' w3 = (Inr name, w4)"
    and r4: "seq (whisper_load_model name) (\<lambda>model.
     transcribe_with_hint model p (language req)) w4 = (Inr result, w')"
    by (blast dest: seq_Inr)
  from r4 obtain model w5 where 5: "whisper_load_model name w4 = (Inr model, w5)"
    and r5: "transcribe_with_hint model p (language req) w5 = (Inr result, w')"
    by (blast dest: seq_Inr)
  from r5 obtain audio where
    a: "whisper_transcribe w5 model audio (hint_arg w5 req) = Inr result"
    unfolding hint_arg_def by (blast dest: transcribe_with_hint_result)
  have e1: "evolves ?Q w w1" by (rule emitsD [OF emits_os_environ 1])
  have e2: "evolves ?Q w1 w2" by (rule emitsD [OF emits_download_file 2]) simp
  have e3: "evolves ?Q w2 w3" by (rule emitsD [OF emits_decrypt_if_provided 3]) simp_all
  have e4: "evolves ?Q w3 w4" by (rule emitsD [OF emits_os_environ_get 4])
  have e5: "evolves ?Q w4 w5" by (rule emitsD [OF emits_whisper_load_model 5]) simp
  have "whisper_transcribe w5 = whisper_transcribe w"
    and "hint_arg w5 req = hint_arg w req"
    using e1 e2 e3 e4 e5 by (simp_all add: hint_arg_def evolves_frame)
  with a show ?thesis by auto
qed

lemma finish_cases:
  "finish req result w = (r, w') \<Longrightarrow>
     (environ w ''R2_BUCKET_NAME'' = None \<and> (\<exists>e. r = Inl e) \<and> w' = w) \<or>
     (\<exists>b. environ w ''R2_BUCKET_NAME'' = Some b \<and>
          calls w' = calls w @ [DeleteObject b (filename req)] \<and>
          (case delete_raises w of
             Some e \<Rightarrow> r = Inl e
           | None \<Rightarrow> r = Inr (transcript_response result) \<and> objects w' b (filename req) = None))"
  by (auto simp add: finish_def seq_def os_environ_def delete_object_def ok_def Let_def
           split: option.splits)

lemma process_file_cases:
  assumes run: "process_file req p w = (r, w')"
  shows "((\<exists>e. r = Inl e) \<and> evolves (\<lambda>c. \<forall>b k. c \<noteq> DeleteObject b k) w w') \<or>
     (\<exists>model audio result b.
         whisper_transcribe w model audio (hint_arg w req) = Inr result \<and>
         environ w ''R2_BUCKET_NAME'' = Some b \<and>
         DeleteObject b (filename req) \<in> set (calls w') \<and>
         (case delete_raises w of
            Some e \<Rightarrow> r = Inl e
          | None \<Rightarrow> r = Inr (transcript_response result) \<and> objects w' b (filename req) = None))"
proof -
  obtain ri w1 where inf: "inference req p w = (ri, w1)" by (cases "inference req p w")
  have ev: "evolves (\<lambda>c. \<forall>b k. c \<noteq> DeleteObject b k) w w1"
    by (rule emitsD [OF emits_inference inf]) simp_all
  show ?thesis
  proof (cases ri)
    case (Inl e)
    with run inf have "r = Inl e" "w' = w1"
      by (simp_all add: process_file_phases seq_def)
    with ev show ?thesis by simp
  next
    case (Inr result)
    with run inf have fin: "finish req result w1 = (r, w')"
      by (simp add: process_file_phases seq_def)
    from inf Inr obtain model audio where
      res: "whisper_transcribe w model audio (hint_arg w req) = Inr result"
      by (blast dest: inference_result)
    from finish_cases [OF fin] consider
      (no_bucket) e where "r = Inl e" "w' = w1"
    | (delete) b where "environ w1 ''R2_BUCKET_NAME'' = Some b"
        "calls w' = calls w1 @ [DeleteObject b (filename req)]"
        "case delete_raises w1 of
           Some e \<Rightarrow> r = Inl e
         | None \<Rightarrow> r = Inr (transcript_response result) \<and> objects w' b (filename req) = None"
      by blast
    then show ?thesis
    proof cases
      case no_bucket
      with ev show ?thesis by simp
    next
      case delete
      with res evolves_frame [OF ev] show ?thesis by auto
    qed
  qed
qed

lemma cleanup_run:
  "cleanup p w = (r, w') \<Longrightarrow>
     r = Inr () \<and> files w' p = None \<and> objects w' = objects w \<and> evolves (\<lambda>c. c = Unlink p) w w'"
  by (auto simp add: cleanup_def os_path_exists_def os_unlink_def evolves_simps split: if_splits)

lemma boto3_client_run:
  "boto3_client w = (r, w') \<Longrightarrow>
     evolves (\<lambda>c. c = Boto3Client) w w' \<and> objects w' = objects w \<and> files w' = files w"
  by (auto simp add: boto3_client_def seq_def os_environ_def record_call_def evolves_simps
           split: option.splits)

lemma pipeline_run:
  assumes ne: "filename req \<noteq> []" and run: "pipeline req w = (r, w')"
  shows "((\<exists>e. r = Inl e) \<and> evolves (\<lambda>c. c = Boto3Client) w w') \<or>
     (\<exists>name w1 w3.
         tempfile_outcome w = Inr name \<and> evolves (\<lambda>c. c = Boto3Client) w w1 \<and>
         objects w1 = objects w \<and>
         process_file req name
           (w1\<lparr>files := (files w1)(name \<mapsto> []), calls := calls w1 @ [TempfileCreate name]\<rparr>) = (r, w3) \<and>
         evolves (\<lambda>c. c = Unlink name) w3 w' \<and> objects w' = objects w3 \<and> files w' name = None)"
proof -
  obtain r1 w1 where b: "boto3_client w = (r1, w1)" by (cases "boto3_client w")
  have ev: "evolves (\<lambda>c. c = Boto3Client) w w1" and ob: "objects w1 = objects w"
    using boto3_client_run [OF b] by simp_all
  show ?thesis
  proof (cases r1)
    case (Inl e)
    with ne run b have "r = Inl e" "w' = w1" by (simp_all add: pipeline_def seq_def)
    with ev show ?thesis by simp
  next
    case r1: (Inr u)
    show ?thesis
    proof (cases "tempfile_outcome w1")
      case (Inl e)
      with ne run b r1 have "r = Inl e" "w' = w1"
        by (simp_all add: pipeline_def seq_def NamedTemporaryFile_def)
      with ev show ?thesis by simp
    next
      case (Inr name)
      let ?w2 = "w1\<lparr>files := (files w1)(name \<mapsto> []), calls := calls w1 @ [TempfileCreate name]\<rparr>"
      obtain rb w3 where p: "process_file req name ?w2 = (rb, w3)"
        by (cases "process_file req name ?w2")
      obtain rc w4 where c: "cleanup name w3 = (rc, w4)" by (cases "cleanup name w3")
      from ne run b r1 Inr p c cleanup_run [OF c] have "r = rb" "w' = w4"
        by (simp_all add: pipeline_def seq_def NamedTemporaryFile_def try_finally_def)
      with Inr p cleanup_run [OF c] ev ob evolves_frame [OF ev] show ?thesis by auto
    qed
  qed
qed

subsection \<open>Runs in the concrete world\<close>

lemmas run_defs = transcribe_audio_def handle_exception_def print_def pipeline_def seq_def ok_def
  try_finally_def process_file_def boto3_client_def os_environ_def record_call_def
  NamedTemporaryFile_def cleanup_def os_path_exists_def os_unlink_def download_file_def
  decrypt_if_provided_def decrypt_file_def read_file_def base64_b64decode_def cipher_decrypt_def
  write_file_def os_environ_get_def whisper_load_model_def transcribe_with_hint_def
  model_transcribe_def delete_object_def Let_def

lemma ascii_lower_EN: "ascii_lower ''EN'' = ''en''"
  by code_simp

lemma example_run_calls:
  "calls (snd (transcribe_audio example_request example_world)) =
     [Boto3Client, TempfileCreate ''/tmp/tmpab12.wav'',
      DownloadFile ''bucket'' ''a.wav'' ''/tmp/tmpab12.wav'', LoadModel ''base'',
      Transcribe ''/tmp/tmpab12.wav'' (Some ''en''), DeleteObject ''bucket'' ''a.wav'',
      Unlink ''/tmp/tmpab12.wav'']"
  by (simp add: run_defs example_world_def example_request_def ascii_lower_EN)

lemma example_run_response:
  "fst (transcribe_audio example_request example_world) =
     transcript_response (example_result (Some ''en''))"
  by (simp add: run_defs example_world_def example_request_def ascii_lower_EN)

subsection \<open>How a run ends\<close>

lemma evolves_calls_Nil:
  "evolves Q w w' \<Longrightarrow> calls w = [] \<Longrightarrow> c \<in> set (calls w') \<Longrightarrow> Q c"
  by (auto simp add: evolves_def list_all_iff)

lemma fst_transcribe_audio:
  "pipeline req w = (Inr r, w') \<Longrightarrow> fst (transcribe_audio req w) = r"
  "pipeline req w = (Inl e, w') \<Longrightarrow> fst (transcribe_audio req w) = generic_error"
  by (simp_all add: transcribe_audio_def handle_exception_def)

lemma pipeline_empty_filename:
  "filename req = [] \<Longrightarrow> pipeline req w = (Inr validation_error, w)"
  by (simp add: pipeline_def ok_def)

text \<open>Every run ends in one of three ways.\<close>

lemma transcribe_audio_cases:
  "(filename req = [] \<and> fst (transcribe_audio req w) = validation_error) \<or>
   (filename req \<noteq> [] \<and> fst (transcribe_audio req w) = generic_error) \<or>
   (filename req \<noteq> [] \<and>
      (\<exists>model audio result.
          whisper_transcribe w model audio (hint_arg w req) = Inr result \<and>
          fst (transcribe_audio req w) = transcript_response result))"
proof (cases "filename req = []")
  case True
  then show ?thesis by (simp add: fst_transcribe_audio(1) [OF pipeline_empty_filename])
next
  case ne: False
  obtain r w' where run: "pipeline req w = (r, w')" by (cases "pipeline req w")
  show ?thesis
  proof (cases r)
    case (Inl e)
    with ne run show ?thesis by (simp add: fst_transcribe_audio(2))
  next
    case (Inr resp)
    with pipeline_run [OF ne run] obtain name w1 w3 where
      ev: "evolves (\<lambda>c. c = Boto3Client) w w1" and
      p: "process_file req name
            (w1\<lparr>files := (files w1)(name \<mapsto> []), calls := calls w1 @ [TempfileCreate name]\<rparr>) =
          (Inr resp, w3)"
      by auto
    from process_file_cases [OF p] obtain model audio result where
      "whisper_transcribe w1 model audio (hint_arg w1 req) = Inr result"
      "resp = transcript_response result"
      by (auto split: option.splits)
    with ne run Inr evolves_frame [OF ev] hint_arg_frame [OF ev, of req] show ?thesis
      by (auto simp add: fst_transcribe_audio(1))
  qed
qed

lemma is_TranscriptResult_transcript_response [simp]:
  "is_TranscriptResult (transcript_response result)"
  by (simp add: is_TranscriptResult_def transcript_response_def)

lemma is_ErrorResult_generic_error [simp]: "is_ErrorResult generic_error"
  by (simp add: is_ErrorResult_def generic_error_def)

lemma shapes_of_validation_error [simp]:
  "\<not> is_TranscriptResult validation_error" "\<not> is_ErrorResult validation_error"
  by (simp_all add: is_TranscriptResult_def is_ErrorResult_def validation_error_def)

lemma not_TranscriptResult_generic_error [simp]: "\<not> is_TranscriptResult generic_error"
  by (simp add: is_TranscriptResult_def generic_error_def)

lemma shapes_exclusive: "\<not> (is_TranscriptResult r \<and> is_ErrorResult r)"
  by (auto simp add: is_TranscriptResult_def is_ErrorResult_def)

lemma pipeline_delete_cases:
  assumes fresh: "calls w = []" and run: "pipeline req w = (r, w')"
  shows
    "(DeleteObject b k \<in> set (calls w') \<longrightarrow>
        (\<exists>model audio result.
            whisper_transcribe w model audio (hint_arg w req) = Inr result \<and>
            (delete_raises w = None \<longrightarrow> r = Inr (transcript_response result)) \<and>
            (delete_raises w \<noteq> None \<longrightarrow> (\<exists>e. r = Inl e)))) \<and>
     ((\<exists>x. r = Inr x \<and> is_TranscriptResult x) \<longrightarrow>
        (\<exists>b. DeleteObject b (filename req) \<in> set (calls w') \<and>
             objects w' b (filename req) = None))"
proof -
  let ?ND = "\<lambda>c. \<forall>b k. c \<noteq> DeleteObject b k"
  show ?thesis
  proof (cases "filename req = []")
    case True
    with run fresh show ?thesis by (auto simp add: pipeline_empty_filename)
  next
    case ne: False
    from pipeline_run [OF ne run] consider
      (early) e where "r = Inl e" "evolves (\<lambda>c. c = Boto3Client) w w'"
    | (scratch) name w1 w3 where "evolves (\<lambda>c. c = Boto3Client) w w1"
        "process_file req name
           (w1\<lparr>files := (files w1)(name \<mapsto> []), calls := calls w1 @ [TempfileCreate name]\<rparr>) = (r, w3)"
        "evolves (\<lambda>c. c = Unlink name) w3 w'" "objects w' = objects w3"
      by blast
    then show ?thesis
    proof cases
      case early
      from evolves_calls_Nil [OF early(2) fresh, of "DeleteObject b k"] early(1)
      show ?thesis by auto
    next
      case scratch
      let ?w2 = "w1\<lparr>files := (files w1)(name \<mapsto> []), calls := calls w1 @ [TempfileCreate name]\<rparr>"
      have e1: "evolves ?ND w w1" using scratch(1) by (rule evolves_mono) simp
      have e2: "evolves ?ND w1 ?w2" by (simp add: evolves_simps)
      have e4: "evolves ?ND w3 w'" using scratch(3) by (rule evolves_mono) simp
      from evolves_callsD [OF scratch(3)] have sub: "set (calls w3) \<subseteq> set (calls w')" by auto
      from process_file_cases [OF scratch(2)] consider
        (before) e where "r = Inl e" "evolves ?ND ?w2 w3"
      | (deleting) model audio result b0 where
          "whisper_transcribe ?w2 model audio (hint_arg ?w2 req) = Inr result"
          "DeleteObject b0 (filename req) \<in> set (calls w3)"
          "case delete_raises ?w2 of
             Some e \<Rightarrow> r = Inl e
           | None \<Rightarrow> r = Inr (transcript_response result) \<and> objects w3 b0 (filename req) = None"
        by blast
      then show ?thesis
      proof cases
        case before
        from e1 e2 before(2) e4 have "evolves ?ND w w'" by (blast intro: evolves_trans)
        from evolves_calls_Nil [OF this fresh, of "DeleteObject b k"] before(1)
        show ?thesis by auto
      next
        case deleting
        have dr: "delete_raises ?w2 = delete_raises w"
          and wt: "whisper_transcribe ?w2 = whisper_transcribe w"
          and ha: "hint_arg ?w2 req = hint_arg w req"
          using evolves_frame [OF scratch(1)] hint_arg_frame [OF scratch(1), of req]
          by simp_all
        have del: "DeleteObject b0 (filename req) \<in> set (calls w')"
          using deleting(2) sub by blast
        show ?thesis
        proof (cases "delete_raises w")
          case None
          with deleting(3) dr have "r = Inr (transcript_response result)"
            and "objects w' b0 (filename req) = None"
            by (simp_all add: scratch(4))
          with deleting(1) wt ha None del show ?thesis by force
        next
          case (Some e)
          with deleting(3) dr have "r = Inl e" by simp
          with deleting(1) wt ha Some show ?thesis by force
        qed
      qed
    qed
  qed
qed

subsection \<open>Claims\<close>

text \<open>
  C9, as the specification states it: some original segment with \<open>start \<le> end\<close> and a
  duration under 0.5 seconds is adjusted to a segment with \<open>end < start\<close>. No such segment
  exists: the two clamps are monotone in the same direction.
\<close>

theorem C9_no_inversion_counterexample:
  "\<not> (\<exists>s. seg_start s \<le> seg_end s \<and> seg_end s - seg_start s < 0.5 \<and>
          seg_end (adjust_segment s) < seg_start (adjust_segment s))"
  by (auto simp add: adjust_segment_def SEGMENT_TIME_ADJUSTMENT_SEC_def max_def)

text \<open>
  C9, amended: for every original segment with \<open>start \<le> end\<close>, whatever its duration, the
  adjusted segment has \<open>start \<le> end\<close>; where the original start is below the offset, the
  adjusted start is 0 and the adjusted end at least 0.5.
\<close>

theorem C9_order_preserved:
  "seg_start s \<le> seg_end s \<Longrightarrow>
     seg_start (adjust_segment s) \<le> seg_end (adjust_segment s) \<and>
     (seg_start s < 0.5 \<longrightarrow> seg_start (adjust_segment s) = 0 \<and> 0.5 \<le> seg_end (adjust_segment s))"
  by (simp add: adjust_segment_def SEGMENT_TIME_ADJUSTMENT_SEC_def max_def)

theorem C9_order_preserved_witness:
  "seg_start \<lparr>seg_start = 0.2, seg_end = 0.4, seg_text = ''world'', seg_other = []\<rparr>
     \<le> seg_end \<lparr>seg_start = 0.2, seg_end = 0.4, seg_text = ''world'', seg_other = []\<rparr> \<and>
   seg_start (adjust_segment \<lparr>seg_start = 0.2, seg_end = 0.4, seg_text = ''world'', seg_other = []\<rparr>) = 0 \<and>
   seg_end (adjust_segment \<lparr>seg_start = 0.2, seg_end = 0.4, seg_text = ''world'', seg_other = []\<rparr>) = 0.5"
  using C9_order_preserved
    [of "\<lparr>seg_start = 0.2, seg_end = 0.4, seg_text = ''world'', seg_other = []\<rparr>"]
  by (simp add: adjust_segment_def SEGMENT_TIME_ADJUSTMENT_SEC_def)

text \<open>
  C5: whatever exception leaves the outer \<^verbatim>\<open>try\<close> block, the caller receives the one
  fixed dictionary; the exception's message and the traceback go to standard output and
  nowhere else.
\<close>

theorem C5_generic_error_only:
  "pipeline req w = (Inl e, w') \<Longrightarrow>
     fst (transcribe_audio req w) =
       [(''error'', Str ''An unexpected error occurred during transcription.''),
        (''text'', Str ''''), (''segments'', Segments []), (''language'', Str ''unknown'')] \<and>
     stdout (snd (transcribe_audio req w)) =
       stdout w @ [''Transcription error: '' @ exn_message e, ''Traceback: '' @ format_exc w e]"
  using emits_frame [OF emits_any_pipeline, of req w "Inl e" w']
  by (simp add: transcribe_audio_def handle_exception_def generic_error_def print_def)

lemma example_missing_object:
  "pipeline (example_request\<lparr>filename := ''b.wav''\<rparr>) example_world =
     (Inl (Exn ''ClientError'' ''Not Found''),
      snd (pipeline (example_request\<lparr>filename := ''b.wav''\<rparr>) example_world))"
  by (simp add: run_defs example_world_def example_request_def)

theorem C5_generic_error_only_witness:
  "pipeline (example_request\<lparr>filename := ''b.wav''\<rparr>) example_world =
     (Inl (Exn ''ClientError'' ''Not Found''),
      snd (pipeline (example_request\<lparr>filename := ''b.wav''\<rparr>) example_world)) \<and>
   fst (transcribe_audio (example_request\<lparr>filename := ''b.wav''\<rparr>) example_world) =
     [(''error'', Str ''An unexpected error occurred during transcription.''),
      (''text'', Str ''''), (''segments'', Segments []), (''language'', Str ''unknown'')] \<and>
   stdout (snd (transcribe_audio (example_request\<lparr>filename := ''b.wav''\<rparr>) example_world)) =
     [''Transcription error: Not Found'',
      ''Traceback: Traceback (most recent call last): ClientError'']"
  using C5_generic_error_only [OF example_missing_object] example_missing_object
  by (simp add: example_world_def)












text \<open>
  C10: line 61 tests truth values. When \<^verbatim>\<open>decryptionKey\<close> or \<^verbatim>\<open>iv\<close> is the empty string,
  the decrypt step does nothing at all (no decoding, no decryption, no exception, the
  fetched file untouched), and the whole run is the run of the same request without key
  and nonce.
\<close>

theorem C10_empty_key_or_iv_skips_decryption:
  "decryption_key req = Some [] \<or> iv req = Some [] \<Longrightarrow>
     decrypt_if_provided (decryption_key req) (iv req) temp_path w = (Inr (), w) \<and>
     transcribe_audio req w = transcribe_audio (req\<lparr>decryption_key := None, iv := None\<rparr>) w"
  by (auto simp add: transcribe_audio_def pipeline_def process_file_def decrypt_if_provided_def
        ok_def)

theorem C10_empty_key_or_iv_skips_decryption_witness:
  "decryption_key (example_request\<lparr>decryption_key := Some [], iv := Some ''AQIDBAUGBwgJCgsM''\<rparr>)
     = Some [] \<and>
   fst (transcribe_audio
          (example_request\<lparr>decryption_key := Some [], iv := Some ''AQIDBAUGBwgJCgsM''\<rparr>)
          example_world) = transcript_response (example_result (Some ''en''))"
  using C10_empty_key_or_iv_skips_decryption
    [of "example_request\<lparr>decryption_key := Some [], iv := Some ''AQIDBAUGBwgJCgsM''\<rparr>"
        "''/tmp/tmpab12.wav''" example_world]
    example_run_response
  by (simp add: example_request_def)

text \<open>
  C1: when the scratch file was created in a run, it is gone when the run ends, whatever
  the run returns.
\<close>

theorem C1_scratch_file_removed:
  assumes fresh: "calls w = []"
    and created: "TempfileCreate temp_path \<in> set (calls (snd (transcribe_audio req w)))"
  shows "files (snd (transcribe_audio req w)) temp_path = None"
proof -
  obtain r w' where run: "pipeline req w = (r, w')" by (cases "pipeline req w")
  from created run have c: "TempfileCreate temp_path \<in> set (calls w')"
    by (simp add: snd_transcribe_audio)
  have ne: "filename req \<noteq> []"
    using c run fresh by (auto simp add: pipeline_empty_filename)
  from pipeline_run [OF ne run] consider
    (early) "evolves (\<lambda>c. c = Boto3Client) w w'"
  | (scratch) name w1 w3 where "evolves (\<lambda>c. c = Boto3Client) w w1"
      "process_file req name
         (w1\<lparr>files := (files w1)(name \<mapsto> []), calls := calls w1 @ [TempfileCreate name]\<rparr>) = (r, w3)"
      "evolves (\<lambda>c. c = Unlink name) w3 w'" "files w' name = None"
    by blast
  then have "files w' temp_path = None"
  proof cases
    case early
    from evolves_calls_Nil [OF early fresh c] show ?thesis by simp
  next
    case scratch
    let ?Q = "\<lambda>c. \<forall>p. c = TempfileCreate p \<longrightarrow> p = name"
    let ?w2 = "w1\<lparr>files := (files w1)(name \<mapsto> []), calls := calls w1 @ [TempfileCreate name]\<rparr>"
    have "evolves ?Q w w1" using scratch(1) by (rule evolves_mono) simp
    moreover have "evolves ?Q w1 ?w2" by (simp add: evolves_simps)
    moreover have "evolves ?Q ?w2 w3"
      by (rule emitsD [OF emits_process_file scratch(2)]) simp_all
    moreover have "evolves ?Q w3 w'" using scratch(3) by (rule evolves_mono) simp
    ultimately have "evolves ?Q w w'" by (blast intro: evolves_trans)
    from evolves_calls_Nil [OF this fresh c] have "temp_path = name" by simp
    with scratch(4) show ?thesis by simp
  qed
  with run show ?thesis by (simp add: snd_transcribe_audio)
qed

lemma example_failed_run_calls:
  "calls (snd (transcribe_audio example_request
      (example_world\<lparr>delete_raises := Some (Exn ''ClientError'' ''AccessDenied'')\<rparr>))) =
     [Boto3Client, TempfileCreate ''/tmp/tmpab12.wav'',
      DownloadFile ''bucket'' ''a.wav'' ''/tmp/tmpab12.wav'', LoadModel ''base'',
      Transcribe ''/tmp/tmpab12.wav'' (Some ''en''), DeleteObject ''bucket'' ''a.wav'',
      Unlink ''/tmp/tmpab12.wav'']"
  by (simp add: run_defs example_world_def example_request_def ascii_lower_EN)

lemma example_failed_run_response:
  "fst (transcribe_audio example_request
      (example_world\<lparr>delete_raises := Some (Exn ''ClientError'' ''AccessDenied'')\<rparr>)) =
     generic_error"
  by (simp add: run_defs example_world_def example_request_def ascii_lower_EN)

theorem C1_scratch_file_removed_witness:
  "calls example_world = [] \<and>
   TempfileCreate ''/tmp/tmpab12.wav''
     \<in> set (calls (snd (transcribe_audio example_request example_world))) \<and>
   is_TranscriptResult (fst (transcribe_audio example_request example_world)) \<and>
   files (snd (transcribe_audio example_request example_world)) ''/tmp/tmpab12.wav'' = None \<and>
   TempfileCreate ''/tmp/tmpab12.wav''
     \<in> set (calls (snd (transcribe_audio example_request
          (example_world\<lparr>delete_raises := Some (Exn ''ClientError'' ''AccessDenied'')\<rparr>)))) \<and>
   is_ErrorResult (fst (transcribe_audio example_request
          (example_world\<lparr>delete_raises := Some (Exn ''ClientError'' ''AccessDenied'')\<rparr>))) \<and>
   files (snd (transcribe_audio example_request
          (example_world\<lparr>delete_raises := Some (Exn ''ClientError'' ''AccessDenied'')\<rparr>)))
     ''/tmp/tmpab12.wav'' = None"
  using C1_scratch_file_removed [of example_world "''/tmp/tmpab12.wav''" example_request]
    C1_scratch_file_removed
      [of "example_world\<lparr>delete_raises := Some (Exn ''ClientError'' ''AccessDenied'')\<rparr>"
          "''/tmp/tmpab12.wav''" example_request]
  by (simp add: example_run_calls example_run_response example_failed_run_calls
        example_failed_run_response)
     (simp add: example_world_def)

text \<open>
  C3: an adjusted segment has \<open>start = max(0, start - 0.5)\<close> and
  \<open>end = max(0.5, end - 0.5)\<close> and is otherwise the model's segment; the two examples of
  the specification come out as stated; and every response that is a TranscriptResult
  carries, in order, the adjusted segments of what the model returned.
\<close>

theorem C3_timestamp_adjustment:
  "seg_start (adjust_segment s) = max 0 (seg_start s - 0.5) \<and>
   seg_end (adjust_segment s) = max 0.5 (seg_end s - 0.5) \<and>
   seg_text (adjust_segment s) = seg_text s \<and> seg_other (adjust_segment s) = seg_other s \<and>
   adjust_segment \<lparr>seg_start = 1.2, seg_end = 3.0, seg_text = t, seg_other = x\<rparr> =
     \<lparr>seg_start = 0.7, seg_end = 2.5, seg_text = t, seg_other = x\<rparr> \<and>
   adjust_segment \<lparr>seg_start = 0.2, seg_end = 0.4, seg_text = t, seg_other = x\<rparr> =
     \<lparr>seg_start = 0, seg_end = 0.5, seg_text = t, seg_other = x\<rparr> \<and>
   (is_TranscriptResult (fst (transcribe_audio req w)) \<longrightarrow>
      (\<exists>model audio result.
          whisper_transcribe w model audio (hint_arg w req) = Inr result \<and>
          fst (transcribe_audio req w) =
            [(''text'', Str (res_text result)),
             (''segments'', Segments (map adjust_segment (res_segments result))),
             (''language'', Str (res_language result))]))"
proof -
  have "is_TranscriptResult (fst (transcribe_audio req w)) \<longrightarrow>
      (\<exists>model audio result.
          whisper_transcribe w model audio (hint_arg w req) = Inr result \<and>
          fst (transcribe_audio req w) = transcript_response result)"
    using transcribe_audio_cases [of req w] by auto
  then show ?thesis
    by (simp add: adjust_segment_def SEGMENT_TIME_ADJUSTMENT_SEC_def transcript_response_def
          adjusted_segments_def)
qed

theorem C3_timestamp_adjustment_witness:
  "is_TranscriptResult (fst (transcribe_audio example_request example_world)) \<and>
   fst (transcribe_audio example_request example_world) =
     [(''text'', Str ''hello world''),
      (''segments'', Segments
         [\<lparr>seg_start = 0.7, seg_end = 2.5, seg_text = ''hello'', seg_other = []\<rparr>,
          \<lparr>seg_start = 0, seg_end = 0.5, seg_text = ''world'', seg_other = []\<rparr>]),
      (''language'', Str ''en'')]"
  using C3_timestamp_adjustment [of _ "''hello''" "[]" example_request example_world]
    C3_timestamp_adjustment [of _ "''world''" "[]" example_request example_world]
  by (simp add: example_run_response)
     (simp add: transcript_response_def adjusted_segments_def example_result_def)

text \<open>
  C4, as the specification states it, fails on the validation short-circuit: with an
  empty file name the returned dictionary has the single key \<^verbatim>\<open>error\<close>, which is neither
  of the two shapes.
\<close>

theorem C4_validation_shape_counterexample:
  "fst (transcribe_audio \<lparr>filename = [], language = ''auto'', decryption_key = None, iv = None\<rparr>
          example_world) = [(''error'', Str ''Missing filename parameter'')] \<and>
   \<not> is_TranscriptResult
      (fst (transcribe_audio
             \<lparr>filename = [], language = ''auto'', decryption_key = None, iv = None\<rparr>
             example_world)) \<and>
   \<not> is_ErrorResult
      (fst (transcribe_audio
             \<lparr>filename = [], language = ''auto'', decryption_key = None, iv = None\<rparr>
             example_world))"
  by (simp add: transcribe_audio_def pipeline_def ok_def validation_error_def
        is_TranscriptResult_def is_ErrorResult_def)

text \<open>
  C4, amended: with a non-empty file name the returned value has exactly one of the two
  shapes, a complete TranscriptResult or the complete ErrorResult; with an empty file name
  it is the dictionary \<open>{error: "Missing filename parameter"}\<close> and nothing else.
\<close>

theorem C4_response_shapes:
  "(filename req = [] \<longrightarrow>
      fst (transcribe_audio req w) = [(''error'', Str ''Missing filename parameter'')]) \<and>
   (filename req \<noteq> [] \<longrightarrow>
      (is_TranscriptResult (fst (transcribe_audio req w)) \<or>
       is_ErrorResult (fst (transcribe_audio req w))) \<and>
      \<not> (is_TranscriptResult (fst (transcribe_audio req w)) \<and>
         is_ErrorResult (fst (transcribe_audio req w))))"
  using transcribe_audio_cases [of req w] shapes_exclusive [of "fst (transcribe_audio req w)"]
  by (auto simp add: validation_error_def)

theorem C4_response_shapes_witness:
  "filename example_request \<noteq> [] \<and>
   is_TranscriptResult (fst (transcribe_audio example_request example_world)) \<and>
   \<not> is_ErrorResult (fst (transcribe_audio example_request example_world)) \<and>
   filename \<lparr>filename = [], language = ''auto'', decryption_key = None, iv = None\<rparr> = [] \<and>
   fst (transcribe_audio \<lparr>filename = [], language = ''auto'', decryption_key = None, iv = None\<rparr>
          example_world) = [(''error'', Str ''Missing filename parameter'')]"
  using C4_response_shapes [of example_request example_world]
    C4_response_shapes
      [of "\<lparr>filename = [], language = ''auto'', decryption_key = None, iv = None\<rparr>" example_world]
  by (simp add: example_run_response) (simp add: example_request_def)

lemma example_run_objects:
  "objects (snd (transcribe_audio example_request example_world)) ''bucket'' ''a.wav'' = None"
  by (simp add: run_defs example_world_def example_request_def ascii_lower_EN)

text \<open>
  C6, as the specification states it, fails: when \<^verbatim>\<open>delete_object\<close> raises after a
  successful transcription, the exception reaches the outer handler and the caller gets
  the ErrorResult, not the transcript.
\<close>

theorem C6_delete_error_fails_request_counterexample:
  "whisper_transcribe
     (example_world\<lparr>delete_raises := Some (Exn ''ClientError'' ''AccessDenied'')\<rparr>)
     ''base'' example_object (Some ''en'') = Inr (example_result (Some ''en'')) \<and>
   DeleteObject ''bucket'' ''a.wav''
     \<in> set (calls (snd (transcribe_audio example_request
          (example_world\<lparr>delete_raises := Some (Exn ''ClientError'' ''AccessDenied'')\<rparr>)))) \<and>
   fst (transcribe_audio example_request
          (example_world\<lparr>delete_raises := Some (Exn ''ClientError'' ''AccessDenied'')\<rparr>)) =
     [(''error'', Str ''An unexpected error occurred during transcription.''),
      (''text'', Str ''''), (''segments'', Segments []), (''language'', Str ''unknown'')] \<and>
   \<not> is_TranscriptResult
      (fst (transcribe_audio example_request
          (example_world\<lparr>delete_raises := Some (Exn ''ClientError'' ''AccessDenied'')\<rparr>)))"
  by (simp add: example_failed_run_calls example_failed_run_response)
     (simp add: example_world_def generic_error_def)

text \<open>
  C6, amended: a deletion is issued only for the requested key and only after the model
  returned a result; it is not best-effort: when the delete call raises, the caller gets
  the generic ErrorResult, and only when it succeeds the transcript. Every TranscriptResult
  comes with the deletion issued and the object gone from the bucket.
\<close>

theorem C6_delete_after_inference:
  assumes fresh: "calls w = []"
  shows
    "(DeleteObject b k \<in> set (calls (snd (transcribe_audio req w))) \<longrightarrow>
        k = filename req \<and>
        (\<exists>model audio result.
            whisper_transcribe w model audio (hint_arg w req) = Inr result \<and>
            (delete_raises w = None \<longrightarrow>
               fst (transcribe_audio req w) = transcript_response result) \<and>
            (delete_raises w \<noteq> None \<longrightarrow> fst (transcribe_audio req w) = generic_error))) \<and>
     (is_TranscriptResult (fst (transcribe_audio req w)) \<longrightarrow>
        (\<exists>b. DeleteObject b (filename req) \<in> set (calls (snd (transcribe_audio req w))) \<and>
             objects (snd (transcribe_audio req w)) b (filename req) = None))"
proof (intro conjI impI)
  obtain r w' where run: "pipeline req w = (r, w')" by (cases "pipeline req w")
  note cases = pipeline_delete_cases [OF fresh run, of b k]
  have c: "calls (snd (transcribe_audio req w)) = calls w'"
    and ob: "objects (snd (transcribe_audio req w)) = objects w'"
    using run by (simp_all add: snd_transcribe_audio)
  {
    assume "DeleteObject b k \<in> set (calls (snd (transcribe_audio req w)))"
    then have d: "DeleteObject b k \<in> set (calls w')" by (simp only: c)
    have "emits (\<lambda>c. \<forall>b k. c = DeleteObject b k \<longrightarrow> k = filename req) (pipeline req)"
      by (rule emits_pipeline) simp_all
    from emits_calls [OF this fresh, of "DeleteObject b k"] d run
    show "k = filename req" by simp
    from cases d have "\<exists>model audio result.
        whisper_transcribe w model audio (hint_arg w req) = Inr result \<and>
        (delete_raises w = None \<longrightarrow> r = Inr (transcript_response result)) \<and>
        (delete_raises w \<noteq> None \<longrightarrow> (\<exists>e. r = Inl e))"
      by (rule mp [OF conjunct1])
    then obtain model audio result where
      t: "whisper_transcribe w model audio (hint_arg w req) = Inr result"
      and s: "delete_raises w = None \<longrightarrow> r = Inr (transcript_response result)"
      and f: "delete_raises w \<noteq> None \<longrightarrow> (\<exists>e. r = Inl e)"
      by (elim exE conjE)
    from s run have s': "delete_raises w = None \<longrightarrow>
        fst (transcribe_audio req w) = transcript_response result"
      by (auto simp add: fst_transcribe_audio(1))
    from f run have f': "delete_raises w \<noteq> None \<longrightarrow>
        fst (transcribe_audio req w) = generic_error"
      by (auto simp add: fst_transcribe_audio(2))
    from t s' f' show "\<exists>model audio result.
        whisper_transcribe w model audio (hint_arg w req) = Inr result \<and>
        (delete_raises w = None \<longrightarrow>
           fst (transcribe_audio req w) = transcript_response result) \<and>
        (delete_raises w \<noteq> None \<longrightarrow> fst (transcribe_audio req w) = generic_error)"
      by (intro exI conjI)
  }
  {
    assume t: "is_TranscriptResult (fst (transcribe_audio req w))"
    have "\<exists>x. r = Inr x \<and> is_TranscriptResult x"
    proof (cases r)
      case (Inl e)
      with run t show ?thesis by (simp add: fst_transcribe_audio(2))
    next
      case (Inr x)
      with run t show ?thesis by (simp add: fst_transcribe_audio(1))
    qed
    with cases have "\<exists>b. DeleteObject b (filename req) \<in> set (calls w') \<and>
        objects w' b (filename req) = None"
      by (rule mp [OF conjunct2])
    then show "\<exists>b. DeleteObject b (filename req) \<in> set (calls (snd (transcribe_audio req w))) \<and>
        objects (snd (transcribe_audio req w)) b (filename req) = None"
      by (simp only: c ob)
  }
qed

theorem C6_delete_after_inference_witness:
  "calls example_world = [] \<and>
   DeleteObject ''bucket'' ''a.wav''
     \<in> set (calls (snd (transcribe_audio example_request example_world))) \<and>
   is_TranscriptResult (fst (transcribe_audio example_request example_world)) \<and>
   ''a.wav'' = filename example_request \<and>
   (\<exists>b. DeleteObject b (filename example_request)
          \<in> set (calls (snd (transcribe_audio example_request example_world))) \<and>
        objects (snd (transcribe_audio example_request example_world)) b
          (filename example_request) = None)"
proof -
  have fresh: "calls example_world = []" by (simp add: example_world_def)
  have issued: "DeleteObject ''bucket'' ''a.wav''
     \<in> set (calls (snd (transcribe_audio example_request example_world)))"
    by (simp add: example_run_calls)
  have shape: "is_TranscriptResult (fst (transcribe_audio example_request example_world))"
    by (simp add: example_run_response)
  note inst = C6_delete_after_inference [OF fresh, of "''bucket''" "''a.wav''" example_request]
  from inst [THEN conjunct1, THEN mp, OF issued]
  have key: "''a.wav'' = filename example_request" by (rule conjunct1)
  from inst [THEN conjunct2, THEN mp, OF shape] fresh issued shape key
  show ?thesis by (intro conjI)
qed

lemma b64encode_eq_Nil_iff: "b64encode x = [] \<longleftrightarrow> x = []"
  by (cases x rule: b64encode.cases) (simp_all add: Let_def)

lemma split_buffer:
  "length tag = 16 \<Longrightarrow>
     drop (length (ciphertext @ tag) - 16) (ciphertext @ tag) = tag \<and>
     take (length (ciphertext @ tag) - 16) (ciphertext @ tag) = ciphertext"
  by simp

text \<open>
  C2: let the scratch file hold \<open>ciphertext || tag\<close>, the encryption of \<open>P\<close> under a key of
  16, 24 or 32 bytes and a non-empty nonce, and let the request carry the Base64 text of
  both, which the decoder takes back to the bytes. Then the decrypt step succeeds and
  leaves exactly \<open>P\<close> in the scratch file, having handed the decryptor the key, the nonce,
  the trailing 16 bytes as tag and the bytes before them as ciphertext.
\<close>

theorem C2_decrypt_round_trip:
  assumes key: "length K \<in> {16, 24, 32}" and nonce: "N \<noteq> []"
    and enc: "is_gcm_encryption (aes_gcm_decrypt w) K N P ciphertext tag"
    and buf: "files w temp_path = Some (ciphertext @ tag)"
    and kd: "b64decode w (b64encode K) = Inr K" and nd: "b64decode w (b64encode N) = Inr N"
  shows "decrypt_if_provided (Some (b64encode K)) (Some (b64encode N)) temp_path w =
     (Inr (),
      w\<lparr>files := (files w)(temp_path \<mapsto> P),
        calls := calls w @ [B64Decode (b64encode K), B64Decode (b64encode N),
                           AesGcmDecrypt K N tag ciphertext]\<rparr>)"
proof -
  from key have "K \<noteq> []" by auto
  with nonce have open_gate: "truthy (Some (b64encode K)) \<and> truthy (Some (b64encode N))"
    by (simp add: b64encode_eq_Nil_iff)
  from enc have t: "length tag = 16" and d: "aes_gcm_decrypt w K N tag ciphertext = Inr P"
    by (simp_all add: is_gcm_encryption_def)
  from open_gate buf kd nd d split_buffer [OF t, of ciphertext] show ?thesis
    by (simp add: decrypt_if_provided_def decrypt_file_def seq_def read_file_def
          base64_b64decode_def cipher_decrypt_def write_file_def Let_def)
qed

lemma b64encode_example_key: "b64encode example_key = ''BwcHBwcHBwcHBwcHBwcHBw==''"
  unfolding example_key_def by code_simp

lemma b64encode_example_nonce: "b64encode example_nonce = ''AQIDBAUGBwgJCgsM''"
  unfolding example_nonce_def by code_simp

lemma example_encryption:
  "is_gcm_encryption example_decrypt example_key example_nonce [1, 2, 3]
     [6, 5, 4] [7, 0, 0, 0, 0, 0, 0, 0, 0, 0, 0, 0, 0, 0, 0, 0]"
  by (simp add: is_gcm_encryption_def example_decrypt_def example_key_def example_tag_def
        numeral_eq_Suc)

theorem C2_decrypt_round_trip_witness:
  "length example_key \<in> {16, 24, 32} \<and> example_nonce \<noteq> [] \<and>
   is_gcm_encryption (aes_gcm_decrypt (example_world\<lparr>files := [''/tmp/tmpab12.wav'' \<mapsto> example_object]\<rparr>))
     example_key example_nonce [1, 2, 3] [6, 5, 4] [7, 0, 0, 0, 0, 0, 0, 0, 0, 0, 0, 0, 0, 0, 0, 0] \<and>
   files (snd (decrypt_if_provided (Some ''BwcHBwcHBwcHBwcHBwcHBw=='') (Some ''AQIDBAUGBwgJCgsM'')
                 ''/tmp/tmpab12.wav''
                 (example_world\<lparr>files := [''/tmp/tmpab12.wav'' \<mapsto> example_object]\<rparr>)))
     ''/tmp/tmpab12.wav'' = Some [1, 2, 3]"
proof -
  let ?w = "example_world\<lparr>files := [''/tmp/tmpab12.wav'' \<mapsto> example_object]\<rparr>"
  have key: "length example_key \<in> {16, 24, 32}" by (simp add: example_key_def)
  have nonce: "example_nonce \<noteq> []" by (simp add: example_nonce_def)
  have enc: "is_gcm_encryption (aes_gcm_decrypt ?w) example_key example_nonce [1, 2, 3]
     [6, 5, 4] [7, 0, 0, 0, 0, 0, 0, 0, 0, 0, 0, 0, 0, 0, 0, 0]"
    using example_encryption by (simp add: example_world_def)
  have buf: "files ?w ''/tmp/tmpab12.wav'' =
      Some ([6, 5, 4] @ [7, 0, 0, 0, 0, 0, 0, 0, 0, 0, 0, 0, 0, 0, 0, 0])"
    by (simp add: example_object_def)
  have kd: "b64decode ?w (b64encode example_key) = Inr example_key"
    by (simp add: b64encode_example_key example_world_def example_b64decode_def)
  have nd: "b64decode ?w (b64encode example_nonce) = Inr example_nonce"
    by (simp add: b64encode_example_nonce example_world_def example_b64decode_def)
  from C2_decrypt_round_trip [OF key nonce enc buf kd nd] key nonce enc
  show ?thesis by (simp add: b64encode_example_key b64encode_example_nonce)
qed

subsection \<open>Tampering\<close>

lemma flip_changes_byte: "j < 8 \<Longrightarrow> xor (x::byte) (push_bit j 1) \<noteq> x"
proof
  assume j: "j < 8" and "xor x (push_bit j 1) = x"
  then have "xor x (xor x (push_bit j 1)) = xor x x" by simp
  then have "(push_bit j 1 :: byte) = 0" by (simp flip: xor.assoc)
  then show False using j by (simp add: push_bit_eq_mult)
qed

lemma flip_bit_at_changes: "i < length buf \<Longrightarrow> j < 8 \<Longrightarrow> flip_bit_at buf i j \<noteq> buf"
proof
  assume i: "i < length buf" and j: "j < 8" and "flip_bit_at buf i j = buf"
  then have "flip_bit_at buf i j ! i = buf ! i" by simp
  with i have "xor (buf ! i) (push_bit j 1) = buf ! i" by (simp add: flip_bit_at_def)
  with flip_changes_byte [OF j] show False by blast
qed

lemma length_flip_bit_at [simp]: "length (flip_bit_at buf i j) = length buf"
  by (simp add: flip_bit_at_def)

lemma flip_bit_at_append:
  "flip_bit_at (c @ t) i j =
     (if i < length c then flip_bit_at c i j @ t else c @ flip_bit_at t (i - length c) j)"
  by (simp add: flip_bit_at_def list_update_append nth_append)

text \<open>
  The decryptor rejects the code's split of a buffer when the key has a wrong length, the
  buffer is shorter than 16 bytes, or the buffer is an accepted one with one bit flipped.
\<close>

lemma tampered_split_rejected:
  assumes auth: "gcm_authenticates dec K N"
    and bad: "length K \<notin> {16, 24, 32} \<or> length buf < 16 \<or>
      (\<exists>c t i j. length t = 16 \<and> \<not> isl (dec K N t c) \<and> i < length (c @ t) \<and> j < 8 \<and>
         buf = flip_bit_at (c @ t) i j)"
  shows "isl (dec K N (drop (length buf - 16) buf) (take (length buf - 16) buf))"
proof -
  from bad consider
    (key) "length K \<notin> {16, 24, 32}"
  | (short) "length buf < 16"
  | (flipped) c t i j where "length t = 16" "\<not> isl (dec K N t c)" "i < length (c @ t)" "j < 8"
      "buf = flip_bit_at (c @ t) i j"
    by blast
  then show ?thesis
  proof cases
    case key
    with auth show ?thesis by (simp add: gcm_authenticates_def)
  next
    case short
    then have "length (drop (length buf - 16) buf) < 16" by simp
    with auth show ?thesis unfolding gcm_authenticates_def by blast
  next
    case flipped
    show ?thesis
    proof (cases "i < length c")
      case True
      with flipped have "drop (length buf - 16) buf = t"
        and "take (length buf - 16) buf = flip_bit_at c i j"
        by (simp_all add: flip_bit_at_append)
      moreover from auth flipped(2,4) True have "isl (dec K N t (flip_bit_at c i j))"
        unfolding gcm_authenticates_def by blast
      ultimately show ?thesis by simp
    next
      case False
      with flipped have i': "i - length c < length t" by simp
      from False flipped have "drop (length buf - 16) buf = flip_bit_at t (i - length c) j"
        and "take (length buf - 16) buf = c"
        by (simp_all add: flip_bit_at_append)
      moreover from auth flipped(2) flip_bit_at_changes [OF i' flipped(4)]
      have "isl (dec K N (flip_bit_at t (i - length c) j) c)"
        unfolding gcm_authenticates_def
        by (metis length_flip_bit_at)
      ultimately show ?thesis by simp
    qed
  qed
qed

text \<open>A run whose decrypt step is rejected stops there, before the model is loaded.\<close>

lemma inference_stops_at_decrypt:
  assumes bucket: "environ w ''R2_BUCKET_NAME'' = Some bkt"
    and object: "objects w bkt (filename req) = Some buf"
    and key: "decryption_key req = Some ks" "ks \<noteq> []"
    and nonce: "iv req = Some ns" "ns \<noteq> []"
    and kd: "b64decode w ks = Inr K" and nd: "b64decode w ns = Inr N"
    and rejected: "isl (aes_gcm_decrypt w K N (drop (length buf - 16) buf) (take (length buf - 16) buf))"
  shows "\<exists>e w'. inference req p w = (Inl e, w') \<and> evolves (\<lambda>c. \<forall>p l. c \<noteq> Transcribe p l) w w'"
proof -
  let ?fetch_decrypt =
    "seq (os_environ ''R2_BUCKET_NAME'') (\<lambda>bucket.
     seq (download_file bucket (filename req) p) (\<lambda>u.
     decrypt_if_provided (decryption_key req) (iv req) p))"
  have phases: "inference req p =
     seq ?fetch_decrypt (\<lambda>u.
     seq (os_environ_get ''WHISPER_MODEL'' ''base'') (\<lambda>model_name.
     seq (whisper_load_model model_name) (\<lambda>model.
     transcribe_with_hint model p (language req))))"
    by (simp add: inference_def seq_assoc)
  have em: "emits (\<lambda>c. \<forall>p l. c \<noteq> Transcribe p l) ?fetch_decrypt"
    by (intro emits_seq emits_os_environ emits_download_file emits_decrypt_if_provided) simp_all
  from rejected obtain e where
    e: "aes_gcm_decrypt w K N (drop (length buf - 16) buf) (take (length buf - 16) buf) = Inl e"
    by (auto simp add: isl_def)
  have "\<exists>e. fst (?fetch_decrypt w) = Inl e"
    using bucket object key nonce kd nd e
    by (cases "download_raises w")
       (simp_all add: seq_def os_environ_def download_file_def decrypt_if_provided_def
          decrypt_file_def read_file_def base64_b64decode_def cipher_decrypt_def Let_def)
  then obtain e' w' where run: "?fetch_decrypt w = (Inl e', w')"
    by (cases "?fetch_decrypt w") auto
  then have "inference req p w = (Inl e', w')" by (simp add: phases seq_def)
  moreover have "evolves (\<lambda>c. \<forall>p l. c \<noteq> Transcribe p l) w w'"
    using em run by (rule emitsD)
  ultimately show ?thesis by blast
qed

lemma rejected_decrypt_fails_request:
  assumes fresh: "calls w = []"
    and name: "filename req \<noteq> []"
    and bucket: "environ w ''R2_BUCKET_NAME'' = Some bkt"
    and object: "objects w bkt (filename req) = Some buf"
    and key: "decryption_key req = Some ks" "ks \<noteq> []"
    and nonce: "iv req = Some ns" "ns \<noteq> []"
    and kd: "b64decode w ks = Inr K" and nd: "b64decode w ns = Inr N"
    and rejected: "isl (aes_gcm_decrypt w K N (drop (length buf - 16) buf) (take (length buf - 16) buf))"
    and run: "pipeline req w = (r, w')"
  shows "(\<exists>e. r = Inl e) \<and> (\<forall>c \<in> set (calls w'). \<forall>p l. c \<noteq> Transcribe p l)"
proof -
  let ?NT = "\<lambda>c. \<forall>p l. c \<noteq> Transcribe p l"
  from pipeline_run [OF name run] consider
    (early) e where "r = Inl e" "evolves (\<lambda>c. c = Boto3Client) w w'"
  | (scratch) name w1 w3 where "evolves (\<lambda>c. c = Boto3Client) w w1" "objects w1 = objects w"
      "process_file req name
         (w1\<lparr>files := (files w1)(name \<mapsto> []), calls := calls w1 @ [TempfileCreate name]\<rparr>) = (r, w3)"
      "evolves (\<lambda>c. c = Unlink name) w3 w'"
    by blast
  then have "(\<exists>e. r = Inl e) \<and> evolves ?NT w w'"
  proof cases
    case early
    from early(2) have "evolves ?NT w w'" by (rule evolves_mono) simp
    with early(1) show ?thesis by blast
  next
    case scratch
    let ?w2 = "w1\<lparr>files := (files w1)(name \<mapsto> []), calls := calls w1 @ [TempfileCreate name]\<rparr>"
    note frame = evolves_frame [OF scratch(1)]
    have "\<exists>e w'. inference req name ?w2 = (Inl e, w') \<and> evolves ?NT ?w2 w'"
      by (rule inference_stops_at_decrypt [where bkt = bkt and buf = buf and ks = ks
            and ns = ns and K = K and N = N])
         (simp_all add: frame scratch(2) bucket object key nonce kd nd rejected)
    then obtain e w3' where inf: "inference req name ?w2 = (Inl e, w3')"
      and e3: "evolves ?NT ?w2 w3'"
      by blast
    from inf have "process_file req name ?w2 = (Inl e, w3')"
      by (simp add: process_file_phases seq_def)
    with scratch(3) have r: "r = Inl e" and w3: "w3 = w3'" by simp_all
    have e1: "evolves ?NT w w1" using scratch(1) by (rule evolves_mono) simp
    have e2: "evolves ?NT w1 ?w2" by (simp add: evolves_simps)
    have e4: "evolves ?NT w3 w'" using scratch(4) by (rule evolves_mono) simp
    from e1 e2 e3 e4 w3 have "evolves ?NT w w'" by (blast intro: evolves_trans)
    with r show ?thesis by blast
  qed
  then show ?thesis
    using fresh by (auto dest: evolves_calls_Nil)
qed

text \<open>The stand-in decryptor of the concrete world meets the contract.\<close>

lemma fold_xor_out: "fold xor c (xor d a) = xor d (fold xor c (a::byte))"
proof (induction c arbitrary: a)
  case Nil
  then show ?case by simp
next
  case (Cons x c)
  have "xor x (xor d a) = xor d (xor x a)" by (rule xor.left_commute)
  with Cons [of "xor x a"] show ?case by simp
qed

lemma fold_xor_flip:
  "i < length c \<Longrightarrow> fold xor (flip_bit_at c i j) a = xor (push_bit j 1) (fold xor c (a::byte))"
proof (induction c arbitrary: i a)
  case Nil
  then show ?case by simp
next
  case (Cons x c)
  show ?case
  proof (cases i)
    case 0
    have "xor (xor x (push_bit j 1)) a = xor (push_bit j 1) (xor x a)"
      by (metis xor.commute xor.assoc)
    with 0 show ?thesis by (simp add: flip_bit_at_def fold_xor_out)
  next
    case (Suc i')
    with Cons.prems have "i' < length c" by simp
    from Cons.IH [OF this, of "xor x a"] Suc show ?thesis by (simp add: flip_bit_at_def)
  qed
qed

lemma example_tag_flip:
  assumes "i < length c" "j < 8"
  shows "example_tag (flip_bit_at c i j) \<noteq> example_tag c"
proof -
  have "xor (fold xor c 0) (push_bit j 1) \<noteq> fold xor c (0::byte)"
    using assms(2) by (rule flip_changes_byte)
  with assms(1) show ?thesis
    by (simp add: example_tag_def fold_xor_flip xor.commute)
qed

lemma example_authenticates: "gcm_authenticates example_decrypt K N"
  unfolding gcm_authenticates_def
proof (intro conjI allI impI)
  fix t c
  assume "length K \<notin> {16, 24, 32}"
  then show "isl (example_decrypt K N t c)" by (simp add: example_decrypt_def)
next
  fix t c :: bytes
  assume "length t < 16"
  then have "t \<noteq> example_tag c" by (auto simp add: example_tag_def)
  then show "isl (example_decrypt K N t c)" by (simp add: example_decrypt_def)
next
  fix t t' c
  assume "\<not> isl (example_decrypt K N t c) \<and> length t' = length t \<and> t' \<noteq> t"
  then show "isl (example_decrypt K N t' c)"
    by (auto simp add: example_decrypt_def split: if_splits)
next
  fix t c :: bytes and i j :: nat
  assume "\<not> isl (example_decrypt K N t c) \<and> i < length c \<and> j < 8"
  then show "isl (example_decrypt K N t (flip_bit_at c i j))"
    using example_tag_flip [of i c j]
    by (auto simp add: example_decrypt_def split: if_splits)
qed

text \<open>
  C7, as the specification states it, fails on a key that is the empty string: it decodes
  to no bytes, which is not 16, 24 or 32, and a decryptor would reject it, but line 61
  skips the decrypt step and the run returns a transcript of the bytes as fetched.
\<close>

theorem C7_empty_key_not_rejected_counterexample:
  "b64decode example_world [] = Inr [] \<and> length ([] :: bytes) \<notin> {16, 24, 32} \<and>
   isl (aes_gcm_decrypt example_world [] example_nonce
          (drop (length example_object - 16) example_object)
          (take (length example_object - 16) example_object)) \<and>
   fst (transcribe_audio
          (example_request\<lparr>decryption_key := Some [], iv := Some ''AQIDBAUGBwgJCgsM''\<rparr>)
          example_world) = transcript_response (example_result (Some ''en'')) \<and>
   is_TranscriptResult
     (fst (transcribe_audio
          (example_request\<lparr>decryption_key := Some [], iv := Some ''AQIDBAUGBwgJCgsM''\<rparr>)
          example_world))"
proof -
  have "fst (transcribe_audio
          (example_request\<lparr>decryption_key := Some [], iv := Some ''AQIDBAUGBwgJCgsM''\<rparr>)
          example_world) = transcript_response (example_result (Some ''en''))"
    by (simp add: run_defs example_world_def example_request_def ascii_lower_EN)
  then show ?thesis
    by (simp add: example_world_def example_b64decode_def example_decrypt_def)
qed

text \<open>
  C7, amended: when the decrypt step runs, that is when \<^verbatim>\<open>decryptionKey\<close> and \<^verbatim>\<open>iv\<close> are
  both non-empty strings, and they decode to a key and a nonce for which the decryptor
  keeps its contract, then for a key not of 16, 24 or 32 bytes, for a stored buffer
  shorter than 16 bytes, and for a stored buffer that is an accepted \<open>ciphertext || tag\<close>
  with any single bit of the ciphertext or of the tag flipped, the caller receives the
  ErrorResult and the model is never called.
\<close>

theorem C7_rejected_buffers_fail:
  assumes fresh: "calls w = []"
    and name: "filename req \<noteq> []"
    and bucket: "environ w ''R2_BUCKET_NAME'' = Some bkt"
    and object: "objects w bkt (filename req) = Some buf"
    and key: "decryption_key req = Some ks" "ks \<noteq> []"
    and nonce: "iv req = Some ns" "ns \<noteq> []"
    and kd: "b64decode w ks = Inr K" and nd: "b64decode w ns = Inr N"
    and auth: "gcm_authenticates (aes_gcm_decrypt w) K N"
    and bad: "length K \<notin> {16, 24, 32} \<or> length buf < 16 \<or>
      (\<exists>c t i j. length t = 16 \<and> \<not> isl (aes_gcm_decrypt w K N t c) \<and>
         i < length (c @ t) \<and> j < 8 \<and> buf = flip_bit_at (c @ t) i j)"
  shows "fst (transcribe_audio req w) =
       [(''error'', Str ''An unexpected error occurred during transcription.''),
        (''text'', Str []), (''segments'', Segments []), (''language'', Str ''unknown'')] \<and>
     (\<forall>p l. Transcribe p l \<notin> set (calls (snd (transcribe_audio req w))))"
proof -
  obtain r w' where run: "pipeline req w = (r, w')" by (cases "pipeline req w")
  have "isl (aes_gcm_decrypt w K N (drop (length buf - 16) buf) (take (length buf - 16) buf))"
    using auth bad by (rule tampered_split_rejected)
  from rejected_decrypt_fails_request [OF fresh name bucket object key nonce kd nd this run]
  obtain e where r: "r = Inl e" and nt: "\<forall>c \<in> set (calls w'). \<forall>p l. c \<noteq> Transcribe p l"
    by blast
  from run r have "fst (transcribe_audio req w) = generic_error"
    by (simp add: fst_transcribe_audio(2))
  moreover from run nt have "\<forall>p l. Transcribe p l \<notin> set (calls (snd (transcribe_audio req w)))"
    by (auto simp add: snd_transcribe_audio)
  ultimately show ?thesis by (simp add: generic_error_def)
qed

theorem C7_rejected_buffers_fail_witness:
  "\<not> isl (aes_gcm_decrypt (world_with_object (flip_bit_at example_object 1 0))
            example_key example_nonce
            [7, 0, 0, 0, 0, 0, 0, 0, 0, 0, 0, 0, 0, 0, 0, 0] [6, 5, 4]) \<and>
   example_object = [6, 5, 4] @ [7, 0, 0, 0, 0, 0, 0, 0, 0, 0, 0, 0, 0, 0, 0, 0] \<and>
   fst (transcribe_audio encrypted_request (world_with_object (flip_bit_at example_object 1 0))) =
     [(''error'', Str ''An unexpected error occurred during transcription.''),
      (''text'', Str []), (''segments'', Segments []), (''language'', Str ''unknown'')] \<and>
   length [1, 2, 3 :: byte] < 16 \<and>
   fst (transcribe_audio encrypted_request (world_with_object [1, 2, 3])) =
     [(''error'', Str ''An unexpected error occurred during transcription.''),
      (''text'', Str []), (''segments'', Segments []), (''language'', Str ''unknown'')]"
proof -
  have fails: "fst (transcribe_audio encrypted_request (world_with_object data)) =
         [(''error'', Str ''An unexpected error occurred during transcription.''),
          (''text'', Str []), (''segments'', Segments []), (''language'', Str ''unknown'')] \<and>
       (\<forall>p l. Transcribe p l
          \<notin> set (calls (snd (transcribe_audio encrypted_request (world_with_object data)))))"
    if bad: "length example_key \<notin> {16, 24, 32} \<or> length data < 16 \<or>
        (\<exists>c t i j. length t = 16 \<and>
           \<not> isl (aes_gcm_decrypt (world_with_object data) example_key example_nonce t c) \<and>
           i < length (c @ t) \<and> j < 8 \<and> data = flip_bit_at (c @ t) i j)" for data
  proof -
    let ?w = "world_with_object data"
    have fresh: "calls ?w = []" by (simp add: world_with_object_def example_world_def)
    have name: "filename encrypted_request \<noteq> []"
      by (simp add: encrypted_request_def example_request_def)
    have bucket: "environ ?w ''R2_BUCKET_NAME'' = Some ''bucket''"
      by (simp add: world_with_object_def example_world_def)
    have object: "objects ?w ''bucket'' (filename encrypted_request) = Some data"
      by (simp add: world_with_object_def encrypted_request_def example_request_def)
    have key: "decryption_key encrypted_request = Some ''BwcHBwcHBwcHBwcHBwcHBw==''"
      "''BwcHBwcHBwcHBwcHBwcHBw=='' \<noteq> []" by (simp_all add: encrypted_request_def)
    have nonce: "iv encrypted_request = Some ''AQIDBAUGBwgJCgsM''" "''AQIDBAUGBwgJCgsM'' \<noteq> []"
      by (simp_all add: encrypted_request_def)
    have kd: "b64decode ?w ''BwcHBwcHBwcHBwcHBwcHBw=='' = Inr example_key"
      by (simp add: world_with_object_def example_world_def example_b64decode_def)
    have nd: "b64decode ?w ''AQIDBAUGBwgJCgsM'' = Inr example_nonce"
      by (simp add: world_with_object_def example_world_def example_b64decode_def)
    have auth: "gcm_authenticates (aes_gcm_decrypt ?w) example_key example_nonce"
      using example_authenticates by (simp add: world_with_object_def example_world_def)
    show ?thesis
      by (rule C7_rejected_buffers_fail [OF fresh name bucket object key nonce kd nd auth bad])
  qed
  let ?t = "[7, 0, 0, 0, 0, 0, 0, 0, 0, 0, 0, 0, 0, 0, 0, 0] :: bytes"
  let ?c = "[6, 5, 4] :: bytes"
  let ?w = "world_with_object (flip_bit_at example_object 1 0)"
  have accepted: "\<not> isl (aes_gcm_decrypt ?w example_key example_nonce ?t ?c)"
    using example_encryption
    by (simp add: world_with_object_def example_world_def is_gcm_encryption_def)
  have split: "example_object = ?c @ ?t" by (simp add: example_object_def)
  have "length ?t = 16 \<and> \<not> isl (aes_gcm_decrypt ?w example_key example_nonce ?t ?c) \<and>
      1 < length (?c @ ?t) \<and> (0::nat) < 8 \<and>
      flip_bit_at example_object 1 0 = flip_bit_at (?c @ ?t) 1 0"
    using accepted by (simp add: example_object_def)
  then have flipped: "length example_key \<notin> {16, 24, 32} \<or>
      length (flip_bit_at example_object 1 0) < 16 \<or>
      (\<exists>c t i j. length t = 16 \<and> \<not> isl (aes_gcm_decrypt ?w example_key example_nonce t c) \<and>
         i < length (c @ t) \<and> j < 8 \<and> flip_bit_at example_object 1 0 = flip_bit_at (c @ t) i j)"
    by blast
  have short: "length [1, 2, 3 :: byte] < 16" by simp
  then have short': "length example_key \<notin> {16, 24, 32} \<or> length [1, 2, 3 :: byte] < 16 \<or>
      (\<exists>c t i j. length t = 16 \<and>
         \<not> isl (aes_gcm_decrypt (world_with_object [1, 2, 3]) example_key example_nonce t c) \<and>
         i < length (c @ t) \<and> j < 8 \<and> [1, 2, 3] = flip_bit_at (c @ t) i j)"
    by (intro disjI2 disjI1)
  from accepted split fails [OF flipped, THEN conjunct1] short
    fails [OF short', THEN conjunct1]
  show ?thesis by (intro conjI)
qed

end
